theory Spec2Isabelle
  imports Main "HOL-Library.Sublist"
begin

section \<open>Go values\<close>

text \<open>
  Source: \<^verbatim>\<open>src/http/httpclient/client.go\<close>, package \<^verbatim>\<open>httpclient\<close>.
  A Go \<^verbatim>\<open>error\<close> is modelled by its message, \<^verbatim>\<open>nil\<close> by \<open>None\<close>. A
  \<^verbatim>\<open>string\<close> and a \<^verbatim>\<open>[]byte\<close> are lists of bytes (\<open>char\<close>). A run-time panic
  (integer division by zero, nil dereference, index out of range) is an outcome of its own.
  Logging has no effect on any returned value and is left out.
\<close>

datatype error = Error (message: string)

datatype 'a outcome = Panic string | Return 'a

subsection \<open>int64 arithmetic\<close>

text \<open>
  \<^verbatim>\<open>int64\<close> values are integers in \<open>[-2^63, 2^63)\<close>; every operation wraps its
  mathematical result into that range. Go's \<^verbatim>\<open>/\<close> truncates towards zero and
  \<^verbatim>\<open>%\<close> takes the sign of the dividend; both panic on a zero divisor, which the
  callers below check before they divide.
\<close>

definition wrap64 :: "int \<Rightarrow> int" where
  "wrap64 x = (x + 2 ^ 63) mod 2 ^ 64 - 2 ^ 63"

definition in_int64 :: "int \<Rightarrow> bool" where
  "in_int64 x = (- (2 ^ 63) \<le> x \<and> x < 2 ^ 63)"

definition add64 :: "int \<Rightarrow> int \<Rightarrow> int" where
  "add64 a b = wrap64 (a + b)"

definition mul64 :: "int \<Rightarrow> int \<Rightarrow> int" where
  "mul64 a b = wrap64 (a * b)"

definition quo64 :: "int \<Rightarrow> int \<Rightarrow> int" where
  "quo64 a b = wrap64 (sgn a * sgn b * (\<bar>a\<bar> div \<bar>b\<bar>))"

definition rem64 :: "int \<Rightarrow> int \<Rightarrow> int" where
  "rem64 a b = wrap64 (a - b * (sgn a * sgn b * (\<bar>a\<bar> div \<bar>b\<bar>)))"

section \<open>Requests, responses and descriptors\<close>

text \<open>
  \<^verbatim>\<open>http.Header\<close> is \<^verbatim>\<open>map[string][]string\<close>. Of a response the model keeps the
  fields the client reads: the status code and line, the headers, and the body with the
  errors that reading and closing it may give.
\<close>

type_synonym header = "string \<rightharpoonup> string list"

record response =
  StatusCode :: int
  Status :: string
  RespHeader :: header
  RespBody :: string
  ReadErr :: "error option"
  CloseErr :: "error option"

record ConcurrentDownloadFlags =
  FileName :: string
  DownloadPath :: string
  RelativePath :: string
  LocalFileName :: string
  LocalPath :: string
  ExpectedSha1 :: string
  ExpectedSha256 :: string
  FileSize :: int
  SplitCount :: int
  Explode :: bool
  BypassArchiveInspection :: bool
  SkipChecksum :: bool

definition StatusPartialContent :: int where
  "StatusPartialContent = 206"

definition partial206 :: response where
  "partial206 = \<lparr>StatusCode = 206, Status = ''206 Partial Content'', RespHeader = Map.empty,
     RespBody = '''', ReadErr = None, CloseErr = None\<rparr>"

definition notFound404 :: response where
  "notFound404 = \<lparr>StatusCode = 404, Status = ''404 Not Found'', RespHeader = Map.empty,
     RespBody = '''', ReadErr = None, CloseErr = None\<rparr>"

text \<open>
  Modelled from the spec: \<^verbatim>\<open>errorutils.CheckError\<close> is not among the sources. The spec
  (section 7) has errors propagate unchanged to the caller, so the model is the identity.
\<close>

definition CheckError :: "error option \<Rightarrow> error option" where
  "CheckError e = e"

section \<open>Headers\<close>

text \<open>
  \<^verbatim>\<open>Header.Set\<close> and \<^verbatim>\<open>Header.Get\<close> of \<^verbatim>\<open>net/http\<close> work on the canonical form of
  the key (\<^verbatim>\<open>textproto.CanonicalMIMEHeaderKey\<close>): a key made of token bytes only has its
  first letter and every letter after a hyphen in upper case and the others in lower case;
  any other key is left as it is. \<^verbatim>\<open>Set\<close> replaces the values of the key by the single
  new value; \<^verbatim>\<open>Get\<close> returns the first value of the key, or the empty string.
\<close>

definition lowerLetters :: string where
  "lowerLetters = ''abcdefghijklmnopqrstuvwxyz''"

definition upperLetters :: string where
  "upperLetters = ''ABCDEFGHIJKLMNOPQRSTUVWXYZ''"

definition toUpper :: "char \<Rightarrow> char" where
  "toUpper c = (case map_of (zip lowerLetters upperLetters) c of Some u \<Rightarrow> u | None \<Rightarrow> c)"

definition toLower :: "char \<Rightarrow> char" where
  "toLower c = (case map_of (zip upperLetters lowerLetters) c of Some l \<Rightarrow> l | None \<Rightarrow> c)"

definition validHeaderFieldByte :: "char \<Rightarrow> bool" where
  "validHeaderFieldByte c =
     (c \<in> set lowerLetters \<or> c \<in> set upperLetters \<or> c \<in> set ''0123456789''
      \<or> c \<in> set ''!#$%&*+-.^_|~'' \<or> c = CHR 0x27 \<or> c = CHR 0x60)"

fun canonicalize :: "bool \<Rightarrow> string \<Rightarrow> string" where
  "canonicalize upper [] = []"
| "canonicalize upper (c # cs) =
     (if upper then toUpper c else toLower c)
       # canonicalize ((if upper then toUpper c else toLower c) = CHR ''-'') cs"

definition CanonicalMIMEHeaderKey :: "string \<Rightarrow> string" where
  "CanonicalMIMEHeaderKey s = (if list_all validHeaderFieldByte s then canonicalize True s else s)"

definition headerSet :: "header \<Rightarrow> string \<Rightarrow> string \<Rightarrow> header" where
  "headerSet h key v = h(CanonicalMIMEHeaderKey key \<mapsto> [v])"

definition headerGet :: "header \<Rightarrow> string \<Rightarrow> string" where
  "headerGet h key =
     (case h (CanonicalMIMEHeaderKey key) of None \<Rightarrow> '''' | Some [] \<Rightarrow> '''' | Some (v # _) \<Rightarrow> v)"

subsection \<open>Base64, for basic authentication\<close>

text \<open>
  \<^verbatim>\<open>base64.StdEncoding.EncodeToString\<close>: three bytes give four characters of the standard
  alphabet, the last group padded with \<open>=\<close>.
\<close>

definition base64Alphabet :: string where
  "base64Alphabet = ''ABCDEFGHIJKLMNOPQRSTUVWXYZabcdefghijklmnopqrstuvwxyz0123456789+/''"

definition b64 :: "nat \<Rightarrow> char" where
  "b64 n = base64Alphabet ! (n mod 64)"

fun base64Encode :: "string \<Rightarrow> string" where
  "base64Encode [] = []"
| "base64Encode [a] =
     (let x = of_char a :: nat in [b64 (x div 4), b64 ((x mod 4) * 16), CHR ''='', CHR ''=''])"
| "base64Encode [a, b] =
     (let x = of_char a :: nat; y = of_char b :: nat
      in [b64 (x div 4), b64 ((x mod 4) * 16 + y div 16), b64 ((y mod 16) * 4), CHR ''=''])"
| "base64Encode (a # b # c # rest) =
     (let x = of_char a :: nat; y = of_char b :: nat; z = of_char c :: nat
      in [b64 (x div 4), b64 ((x mod 4) * 16 + y div 16), b64 ((y mod 16) * 4 + z div 64), b64 (z mod 64)]
         @ base64Encode rest)"

section \<open>Request details and requests\<close>

text \<open>
  Modelled from the spec: the type \<^verbatim>\<open>httputils.HttpClientDetails\<close> is not among the sources.
  Section 3 of the spec gives its content: a mapping of header names to values, an API key,
  an access token, a user and a password, and an ordered sequence of pre-retry predicates.
  The header mapping is a Go map, \<open>None\<close> when nil; it is kept as the list of its entries
  in the order in which \<^verbatim>\<open>range\<close> visits them, which Go leaves unspecified. A pre-retry
  predicate is a \<^verbatim>\<open>func() bool\<close>; it may read and change the state \<open>'w\<close> of the world.
\<close>

record 'w HttpClientDetails =
  User :: string
  Password :: string
  ApiKey :: string
  AccessToken :: string
  Headers :: "(string \<times> string) list option"
  PreRetryInterceptors :: "('w \<Rightarrow> bool \<times> 'w) list"

record request =
  Method :: string
  URL :: string
  ReqBody :: "string option"
  Header :: header
  Close :: bool
  ContentLength :: int

section \<open>Authentication\<close>

definition apiKeyPrefix :: string where
  "apiKeyPrefix = ''AKCp8''"

definition apiKeyMinimalLength :: nat where
  "apiKeyMinimalLength = 73"

definition uberTraceIdHeader :: string where
  "uberTraceIdHeader = ''uber-trace-id''"

definition IsApiKey :: "string \<Rightarrow> bool" where
  "IsApiKey key = (prefix apiKeyPrefix key \<and> length key \<ge> apiKeyMinimalLength)"

text \<open>\<^verbatim>\<open>Request.SetBasicAuth\<close> of \<^verbatim>\<open>net/http\<close>.\<close>

definition SetBasicAuth :: "request \<Rightarrow> string \<Rightarrow> string \<Rightarrow> request" where
  "SetBasicAuth req username password =
     req\<lparr>Header := headerSet (Header req) ''Authorization''
                      (''Basic '' @ base64Encode (username @ '':'' @ password))\<rparr>"

definition setAuthentication :: "request \<Rightarrow> ('w, 'x) HttpClientDetails_scheme \<Rightarrow> request" where
  "setAuthentication req httpClientsDetails =
     (if ApiKey httpClientsDetails \<noteq> '''' then
        (if User httpClientsDetails \<noteq> '''' then
           SetBasicAuth req (User httpClientsDetails) (ApiKey httpClientsDetails)
         else req\<lparr>Header := headerSet (Header req) ''X-JFrog-Art-Api'' (ApiKey httpClientsDetails)\<rparr>)
      else if AccessToken httpClientsDetails \<noteq> '''' then
        (if IsApiKey (AccessToken httpClientsDetails) then
           SetBasicAuth req (User httpClientsDetails) (AccessToken httpClientsDetails)
         else req\<lparr>Header := headerSet (Header req) ''Authorization''
                                (''Bearer '' @ AccessToken httpClientsDetails)\<rparr>)
      else if Password httpClientsDetails \<noteq> '''' then
        SetBasicAuth req (User httpClientsDetails) (Password httpClientsDetails)
      else req)"

text \<open>
  Which schemes a header carries: basic credentials or a bearer token in
  \<^verbatim>\<open>Authorization\<close>, and the API key header.
\<close>

definition hasBasic :: "header \<Rightarrow> bool" where
  "hasBasic h = (case h ''Authorization'' of Some [v] \<Rightarrow> prefix ''Basic '' v | _ \<Rightarrow> False)"

definition hasBearer :: "header \<Rightarrow> bool" where
  "hasBearer h = (case h ''Authorization'' of Some [v] \<Rightarrow> prefix ''Bearer '' v | _ \<Rightarrow> False)"

definition hasApiKeyHeader :: "header \<Rightarrow> bool" where
  "hasApiKeyHeader h = (h ''X-Jfrog-Art-Api'' \<noteq> None)"

definition schemes :: "header \<Rightarrow> nat" where
  "schemes h = length (filter (\<lambda>b. b) [hasBasic h, hasApiKeyHeader h, hasBearer h])"

definition newRequest0 :: "string \<Rightarrow> string \<Rightarrow> string option \<Rightarrow> request" where
  "newRequest0 method url body =
     \<lparr>Method = method, URL = url, ReqBody = body, Header = Map.empty, Close = False,
      ContentLength = (case body of None \<Rightarrow> 0 | Some b \<Rightarrow> int (length b))\<rparr>"

section \<open>The retry predicate of Send\<close>

definition StatusTooManyRequests :: int where
  "StatusTooManyRequests = 429"

fun runInterceptors :: "('w \<Rightarrow> bool \<times> 'w) list \<Rightarrow> 'w \<Rightarrow> bool \<times> 'w" where
  "runInterceptors [] w = (True, w)"
| "runInterceptors (shouldRetry # rest) w =
     (case shouldRetry w of (ok, w') \<Rightarrow> if \<not> ok then (False, w') else runInterceptors rest w')"

definition shouldRetry :: "response \<Rightarrow> ('w, 'x) HttpClientDetails_scheme \<Rightarrow> 'w \<Rightarrow> bool \<times> 'w" where
  "shouldRetry resp httpClientsDetails w =
     (if StatusCode resp < 500 \<and> StatusCode resp \<noteq> StatusTooManyRequests then (False, w)
      else runInterceptors (PreRetryInterceptors httpClientsDetails) w)"

text \<open>The state of the world in which the \<open>i\<close>-th interceptor is called, if it is.\<close>

definition worldBefore :: "('w \<Rightarrow> bool \<times> 'w) list \<Rightarrow> 'w \<Rightarrow> nat \<Rightarrow> 'w" where
  "worldBefore ics w i = fold (\<lambda>f v. snd (f v)) (take i ics) w"

subsection \<open>Concrete request details and responses\<close>

definition detailsApiKeyUser :: "nat HttpClientDetails" where
  "detailsApiKeyUser = \<lparr>User = ''admin'', Password = ''pw'', ApiKey = ''key'', AccessToken = ''tok'',
     Headers = None, PreRetryInterceptors = [\<lambda>n. (n < 2, Suc n), \<lambda>n. (True, n)]\<rparr>"

definition tooMany429 :: response where
  "tooMany429 = \<lparr>StatusCode = 429, Status = ''429 Too Many Requests'', RespHeader = Map.empty,
     RespBody = '''', ReadErr = None, CloseErr = None\<rparr>"

section \<open>Checksums\<close>

text \<open>
  \<^verbatim>\<open>hex.EncodeToString\<close>: two characters of \<^verbatim>\<open>0123456789abcdef\<close> per byte, the high
  half first.
\<close>

definition hextable :: string where
  "hextable = ''0123456789abcdef''"

fun hexEncode :: "string \<Rightarrow> string" where
  "hexEncode [] = []"
| "hexEncode (v # vs) =
     hextable ! ((of_char v :: nat) div 16) # hextable ! ((of_char v :: nat) mod 16) # hexEncode vs"

text \<open>
  A \<^verbatim>\<open>hash.Hash\<close> is the algorithm and the bytes written to it so far; \<^verbatim>\<open>Sum(nil)\<close> is
  the digest of those bytes. The digest functions of \<^verbatim>\<open>crypto/sha1\<close> and
  \<^verbatim>\<open>sha256-simd\<close> are parameters.
\<close>

datatype hashAlg = SHA1 | SHA256

type_synonym hash = "hashAlg \<times> string"

record digests =
  sha1 :: "string \<Rightarrow> string"
  sha256 :: "string \<Rightarrow> string"

definition hashWrite :: "hash \<Rightarrow> string \<Rightarrow> hash" where
  "hashWrite h bytes = (fst h, snd h @ bytes)"

definition hashSum :: "digests \<Rightarrow> hash \<Rightarrow> string" where
  "hashSum H h = (case fst h of SHA1 \<Rightarrow> sha1 H (snd h) | SHA256 \<Rightarrow> sha256 H (snd h))"

text \<open>
  Modelled from the spec: \<^verbatim>\<open>errorutils.CheckErrorf\<close> is not among the sources. Where the
  source calls it with a message and no further argument, the spec has the error carry
  that message (sections 4.6 and 7), so the model is the error with the message given.
\<close>

definition CheckErrorf :: "string \<Rightarrow> error option" where
  "CheckErrorf msg = CheckError (Some (Error msg))"

definition validateChecksum :: "digests \<Rightarrow> string \<Rightarrow> hash \<Rightarrow> string \<Rightarrow> error option" where
  "validateChecksum H expectedSha actualSha fileName =
     (let actualShaString = hexEncode (hashSum H actualSha)
      in if actualShaString \<noteq> expectedSha then
           CheckErrorf (''checksum mismatch for  '' @ fileName @ '', expected: '' @ expectedSha
                          @ '', actual: '' @ actualShaString)
         else None)"

definition handleExpectedSha :: "string \<Rightarrow> string \<Rightarrow> string \<times> hash option" where
  "handleExpectedSha expectedSha1 expectedSha256 =
     (if length expectedSha1 > 0 then (expectedSha1, Some (SHA1, ''''))
      else if length expectedSha256 > 0 then (expectedSha256, Some (SHA256, ''''))
      else ('''', None))"

text \<open>\<^verbatim>\<open>errors.Join\<close> of two errors: nil when both are, else the messages on separate lines.\<close>

definition Join :: "error option \<Rightarrow> error option \<Rightarrow> error option" where
  "Join a b =
     (case (a, b) of
        (None, None) \<Rightarrow> None
      | (Some e, None) \<Rightarrow> Some e
      | (None, Some e) \<Rightarrow> Some e
      | (Some e1, Some e2) \<Rightarrow> Some (Error (message e1 @ [CHR 0x0A] @ message e2)))"

subsection \<open>Saving a single-stream download\<close>

text \<open>
  \<^verbatim>\<open>DownloadFileDetails\<close>; the primes keep its fields apart from those of
  \<^verbatim>\<open>ConcurrentDownloadFlags\<close>.
\<close>

record DownloadFileDetails =
  FileName' :: string
  DownloadPath' :: string
  RelativePath' :: string
  LocalPath' :: string
  LocalFileName' :: string
  ExpectedSha1' :: string
  ExpectedSha256' :: string
  Size' :: int
  SkipChecksum' :: bool

text \<open>
  What the file system answers during \<^verbatim>\<open>saveToFile\<close>: the result of
  \<^verbatim>\<open>fileutils.CreateFilePath\<close>, of \<^verbatim>\<open>os.Create\<close>, of writing in \<^verbatim>\<open>io.Copy\<close>, and of
  closing the file. \<^verbatim>\<open>io.Copy\<close> also fails when reading the body does. The progress
  reader only observes the bytes. The function returns its error; the bytes it writes
  when nothing fails are the body of the response.
\<close>

record saveIO =
  CreateFilePath :: "error + string"
  Create :: "error option"
  WriteErr :: "error option"
  CloseOut :: "error option"

definition copyErr :: "response \<Rightarrow> error option \<Rightarrow> error option" where
  "copyErr resp writeErr = (case ReadErr resp of Some e \<Rightarrow> Some e | None \<Rightarrow> writeErr)"

definition saveToFile :: "digests \<Rightarrow> DownloadFileDetails \<Rightarrow> response \<Rightarrow> saveIO \<Rightarrow> error option outcome" where
  "saveToFile H downloadFileDetails resp io =
     (case CreateFilePath io of
        Inl e \<Rightarrow> Return (Some e)
      | Inr fileName \<Rightarrow>
          (if CheckError (Create io) \<noteq> None then Return (Create io)
           else
             let (expectedSha, actualSha) =
                   handleExpectedSha (ExpectedSha1' downloadFileDetails) (ExpectedSha256' downloadFileDetails)
             in if length expectedSha > 0 \<and> \<not> SkipChecksum' downloadFileDetails then
                  (case actualSha of
                     None \<Rightarrow> Panic ''nil pointer dereference''
                   | Some h \<Rightarrow>
                       if CheckError (copyErr resp (WriteErr io)) \<noteq> None
                       then Return (Join (copyErr resp (WriteErr io)) (CheckError (CloseOut io)))
                       else Return (Join
                              (CheckError (validateChecksum H expectedSha (hashWrite h (RespBody resp))
                                 (LocalFileName' downloadFileDetails)))
                              (CheckError (CloseOut io))))
                else Return (Join (CheckError (copyErr resp (WriteErr io))) (CheckError (CloseOut io)))))"

subsection \<open>Merging the chunks\<close>

text \<open>
  What the file system answers during \<^verbatim>\<open>mergeChunks\<close>: opening and closing the
  destination, and for each chunk file opening it, its content, copying it and closing it.
\<close>

record chunkIO =
  OpenChunk :: "error option"
  Content :: string
  CopyChunk :: "error option"
  CloseChunk :: "error option"

record mergeIO =
  OpenDest :: "error option"
  CloseDest :: "error option"
  Chunks :: "chunkIO list"

text \<open>
  The loop over the chunks, from index \<open>i\<close>: the hash and the destination receive the
  content of each chunk in index order; the first error ends the loop.
\<close>

function mergeLoop :: "int \<Rightarrow> chunkIO list \<Rightarrow> nat \<Rightarrow> string \<Rightarrow> (error option \<times> string) outcome" where
  "mergeLoop splitCount chunks i written =
     (if int i < splitCount then
        (if length chunks \<le> i then Panic ''index out of range''
         else let c = chunks ! i in
           if CheckError (OpenChunk c) \<noteq> None then Return (OpenChunk c, written)
           else if CheckError (CopyChunk c) \<noteq> None
             then Return (Join (CopyChunk c) (CheckError (CloseChunk c)), written)
           else if Join None (CheckError (CloseChunk c)) \<noteq> None
             then Return (Join None (CheckError (CloseChunk c)), written @ Content c)
           else mergeLoop splitCount chunks (i + 1) (written @ Content c))
      else Return (None, written))"
  by pat_completeness auto
termination
  by (relation "measure (\<lambda>(splitCount, chunks, i, written). nat splitCount - i)") auto

declare mergeLoop.simps [simp del]

definition mergeChunks :: "digests \<Rightarrow> ConcurrentDownloadFlags \<Rightarrow> mergeIO \<Rightarrow> error option outcome" where
  "mergeChunks H flags io =
     (if CheckError (OpenDest io) \<noteq> None then Return (OpenDest io)
      else
        let (expectedSha, actualSha) = handleExpectedSha (ExpectedSha1 flags) (ExpectedSha256 flags)
        in case mergeLoop (SplitCount flags) (Chunks io) 0 '''' of
             Panic p \<Rightarrow> Panic p
           | Return (Some e, written) \<Rightarrow> Return (Join (Some e) (CheckError (CloseDest io)))
           | Return (None, written) \<Rightarrow>
               (if length expectedSha > 0 \<and> \<not> SkipChecksum flags then
                  (case actualSha of
                     None \<Rightarrow> Panic ''nil pointer dereference''
                   | Some h \<Rightarrow>
                       Return (Join (validateChecksum H expectedSha (hashWrite h written) (LocalFileName flags))
                                 (CheckError (CloseDest io))))
                else Return (Join None (CheckError (CloseDest io)))))"

subsection \<open>A concrete download with both checksums\<close>

text \<open>The digests here are stand-ins with fixed values; the theorems hold for all digests.\<close>

definition toyDigests :: digests where
  "toyDigests = \<lparr>sha1 = (\<lambda>bytes. ''J''), sha256 = (\<lambda>bytes. ''K'')\<rparr>"

definition detailsBothShas :: DownloadFileDetails where
  "detailsBothShas = \<lparr>FileName' = ''f.bin'', DownloadPath' = ''http://h/f.bin'', RelativePath' = ''f.bin'',
     LocalPath' = ''out'', LocalFileName' = ''f.bin'', ExpectedSha1' = ''4a'', ExpectedSha256' = ''ffff'',
     Size' = 5, SkipChecksum' = False\<rparr>"

definition ok200 :: response where
  "ok200 = \<lparr>StatusCode = 200, Status = ''200 OK'', RespHeader = Map.empty,
     RespBody = ''hello'', ReadErr = None, CloseErr = None\<rparr>"

definition saveFine :: saveIO where
  "saveFine = \<lparr>CreateFilePath = Inr ''out/f.bin'', Create = None, WriteErr = None, CloseOut = None\<rparr>"

section \<open>The retry executor\<close>

text \<open>
  Modelled from the spec: \<^verbatim>\<open>utils.RetryExecutor\<close> is not among the sources. Section 4.1 of
  the spec: the handler is invoked up to \<open>R + 1\<close> times for \<open>R\<close> retries; a handler
  that returns \<open>(false, err)\<close> ends the execution with \<open>err\<close>; \<open>(true, _)\<close> schedules
  another attempt if one remains; between two attempts the executor waits, unless the
  context has been cancelled, in which case it returns the cancellation error; on
  exhaustion the last error is returned wrapped with the error message of the executor.

  A handler is a closure: it works on the variables it captures and on the world, together
  the state \<open>'st\<close>. It returns \<open>None\<close> when a nested \<^verbatim>\<open>Send\<close> gives no result within
  the depth the model allows (see \<open>Send\<close> below).
\<close>

definition exhausted :: "string \<Rightarrow> error option \<Rightarrow> error option" where
  "exhausted errorMessage lastErr =
     Some (Error (errorMessage @ (case lastErr of None \<Rightarrow> '''' | Some e \<Rightarrow> '': '' @ message e)))"

definition cancelledError :: error where
  "cancelledError = Error ''context canceled''"

fun retryLoop ::
  "nat \<Rightarrow> ('st \<Rightarrow> ((bool \<times> error option) \<times> 'st) option) \<Rightarrow> ('st \<Rightarrow> bool) \<Rightarrow> string \<Rightarrow> error option \<Rightarrow> 'st
     \<Rightarrow> (error option \<times> 'st) option" where
  "retryLoop 0 handler cancelled errorMessage lastErr st = Some (exhausted errorMessage lastErr, st)"
| "retryLoop (Suc k) handler cancelled errorMessage lastErr st =
     (case handler st of
        None \<Rightarrow> None
      | Some ((retry, err), st') \<Rightarrow>
          if \<not> retry then Some (err, st')
          else if k \<noteq> 0 \<and> cancelled st' then Some (Some cancelledError, st')
          else retryLoop k handler cancelled errorMessage err st')"

definition Execute ::
  "int \<Rightarrow> string \<Rightarrow> ('st \<Rightarrow> bool) \<Rightarrow> ('st \<Rightarrow> ((bool \<times> error option) \<times> 'st) option) \<Rightarrow> 'st
     \<Rightarrow> (error option \<times> 'st) option" where
  "Execute maxRetries errorMessage cancelled handler st =
     retryLoop (if maxRetries < 0 then 0 else nat maxRetries + 1) handler cancelled errorMessage None st"

section \<open>The client and its environment\<close>

text \<open>
  What \<^verbatim>\<open>http.Client.Do\<close> returns: a response and no error; no response and an error;
  or, only when the redirect policy fails, the last response together with the error.
\<close>

datatype doResult = Responded response | Failed error | RedirectBlocked response error

fun respOf :: "doResult \<Rightarrow> response option" where
  "respOf (Responded r) = Some r"
| "respOf (Failed e) = None"
| "respOf (RedirectBlocked r e) = Some r"

fun errOf :: "doResult \<Rightarrow> error option" where
  "errOf (Responded r) = None"
| "errOf (Failed e) = Some e"
| "errOf (RedirectBlocked r e) = Some e"

text \<open>
  \<^verbatim>\<open>HttpClient\<close>. Of \<^verbatim>\<open>jc.client\<close> the model keeps \<open>Do\<close>, the exchange under the client's
  own redirect policy, and \<open>RoundTrip\<close>, one exchange through its transport (with its
  cookie jar and timeout), which a clone of the client shares. Of \<^verbatim>\<open>jc.ctx\<close> it keeps
  whether the context is cancelled in a state of the world (never, when it is nil).
\<close>

record 'w HttpClient =
  Do :: "request \<Rightarrow> 'w \<Rightarrow> doResult \<times> 'w"
  RoundTrip :: "request \<Rightarrow> 'w \<Rightarrow> (error + response) \<times> 'w"
  ctxCancelled :: "'w \<Rightarrow> bool"
  retries :: int
  retryWaitMilliSecs :: int

text \<open>
  What the functions use from outside the file: the package variable
  \<^verbatim>\<open>uberTraceIdToken\<close>; the string \<^verbatim>\<open>utils.GetUserAgent()\<close> returns; the error of
  \<^verbatim>\<open>http.NewRequest\<close> for a method and a URL; the URL a \<^verbatim>\<open>Location\<close> header resolves to
  against the URL of the request, as a string; the quoting of \<^verbatim>\<open>%q\<close>; and the file
  system: \<^verbatim>\<open>os.Open\<close> (giving the content of the file), \<^verbatim>\<open>fileutils.GetFileSize\<close> and
  \<^verbatim>\<open>Close\<close> of the opened file, by its path.
\<close>

record 'w env =
  uberTraceIdToken :: string
  GetUserAgent :: string
  NewRequestErr :: "string \<Rightarrow> string \<Rightarrow> error option"
  ResolveLocation :: "string \<Rightarrow> string \<Rightarrow> string option"
  Quote :: "string \<Rightarrow> string"
  osOpen :: "string \<Rightarrow> 'w \<Rightarrow> error + string"
  GetFileSize :: "string \<Rightarrow> 'w \<Rightarrow> error + int"
  fileClose :: "string \<Rightarrow> 'w \<Rightarrow> error option"

subsection \<open>Building a request\<close>

definition newRequest :: "'w env \<Rightarrow> string \<Rightarrow> string \<Rightarrow> string option \<Rightarrow> request option \<times> error option" where
  "newRequest E method url body =
     (case NewRequestErr E method url of
        Some e \<Rightarrow> (None, CheckError (Some e))
      | None \<Rightarrow> (Some (newRequest0 method url body), CheckError None))"

definition createReq :: "'w env \<Rightarrow> string \<Rightarrow> string \<Rightarrow> string option \<Rightarrow> request option \<times> error option" where
  "createReq E method url content =
     (case content of Some c \<Rightarrow> newRequest E method url (Some c) | None \<Rightarrow> newRequest E method url None)"

definition addUserAgentHeader :: "'w env \<Rightarrow> request \<Rightarrow> request" where
  "addUserAgentHeader E req = req\<lparr>Header := headerSet (Header req) ''User-Agent'' (GetUserAgent E)\<rparr>"

text \<open>\<^verbatim>\<open>copyHeaders\<close>: one \<^verbatim>\<open>Set\<close> per entry of the map, in the order of the iteration.\<close>

definition copyHeaders :: "('w, 'x) HttpClientDetails_scheme \<Rightarrow> request \<Rightarrow> request" where
  "copyHeaders httpClientsDetails req =
     (case Headers httpClientsDetails of
        None \<Rightarrow> req
      | Some hs \<Rightarrow> fold (\<lambda>(name, v) r. r\<lparr>Header := headerSet (Header r) name v\<rparr>) hs req)"

definition SetUberTraceIdToken :: "string \<Rightarrow> 'w env \<Rightarrow> 'w env" where
  "SetUberTraceIdToken traceIdToken E =
     E\<lparr>uberTraceIdToken := traceIdToken @ '':'' @ traceIdToken @ '':0:0''\<rparr>"

definition addUberTraceIdHeaderIfSet :: "'w env \<Rightarrow> request \<Rightarrow> request" where
  "addUberTraceIdHeaderIfSet E req =
     (if uberTraceIdToken E = '''' then req
      else req\<lparr>Header := headerSet (Header req) uberTraceIdHeader (uberTraceIdToken E)\<rparr>)"

text \<open>\<^verbatim>\<open>strconv.FormatInt(n, 10)\<close>.\<close>

fun decimal :: "nat \<Rightarrow> string" where
  "decimal n = (if n < 10 then [''0123456789'' ! n] else decimal (n div 10) @ [''0123456789'' ! (n mod 10)])"

declare decimal.simps [simp del]

definition FormatInt :: "int \<Rightarrow> string" where
  "FormatInt n = (if n < 0 then ''-'' @ decimal (nat (- n)) else decimal (nat n))"

definition setRequestHeaders :: "('w, 'x) HttpClientDetails_scheme \<Rightarrow> int \<Rightarrow> request \<Rightarrow> request" where
  "setRequestHeaders httpClientsDetails sz req =
     (let r = copyHeaders httpClientsDetails req
      in r\<lparr>Header := headerSet (Header r) ''Content-Length'' (FormatInt sz)\<rparr>)"

subsection \<open>The exchange on a clone that captures the redirect\<close>

text \<open>
  \<^verbatim>\<open>doRequest\<close> replaces \<^verbatim>\<open>CheckRedirect\<close> on a clone of the client by a function that
  stores the URL of the next request in \<^verbatim>\<open>redirectUrl\<close> and returns the error
  \<^verbatim>\<open>redirect\<close>. \<^verbatim>\<open>Client.Do\<close> of \<^verbatim>\<open>net/http\<close> then works as follows. An error of the
  transport is returned wrapped in a \<^verbatim>\<open>url.Error\<close>. A response with status 301, 302,
  303, 307 or 308 and a \<^verbatim>\<open>Location\<close> header is a redirect; the header is resolved
  against the URL of the request, the redirect policy is asked, and as it fails the
  response is returned together with the error of the policy, wrapped in a
  \<^verbatim>\<open>url.Error\<close>. Any other response is returned as it is. (For 307 and 308 the body of
  the request must be replayable, which holds for the requests \<^verbatim>\<open>createReq\<close> builds.)
  The result is paired with the captured URL, empty when the policy was not asked.
\<close>

definition isRedirect :: "response \<Rightarrow> bool" where
  "isRedirect resp = (StatusCode resp \<in> {301, 302, 303, 307, 308})"

definition urlErrorOp :: "string \<Rightarrow> string" where
  "urlErrorOp method = (case method of [] \<Rightarrow> ''Get'' | c # cs \<Rightarrow> c # map toLower cs)"

definition urlError :: "'w env \<Rightarrow> string \<Rightarrow> string \<Rightarrow> error \<Rightarrow> error" where
  "urlError E op url err = Error (op @ '' '' @ Quote E url @ '': '' @ message err)"

definition doCapture :: "'w env \<Rightarrow> 'w HttpClient \<Rightarrow> request \<Rightarrow> 'w \<Rightarrow> (doResult \<times> string) \<times> 'w" where
  "doCapture E jc req w =
     (case RoundTrip jc req w of
        (Inl e, w') \<Rightarrow> ((Failed (urlError E (urlErrorOp (Method req)) (URL req) e), ''''), w')
      | (Inr resp, w') \<Rightarrow>
          (if isRedirect resp \<and> headerGet (RespHeader resp) ''Location'' \<noteq> '''' then
             (case ResolveLocation E (URL req) (headerGet (RespHeader resp) ''Location'') of
                None \<Rightarrow>
                  ((Failed (urlError E (urlErrorOp (Method req)) (URL req)
                      (Error (''failed to parse Location header ''
                                @ Quote E (headerGet (RespHeader resp) ''Location'')))), ''''), w')
              | Some u \<Rightarrow>
                  ((RedirectBlocked resp (urlError E (urlErrorOp (Method req)) u (Error ''redirect'')), u), w'))
           else ((Responded resp, ''''), w')))"

subsection \<open>One request\<close>

text \<open>
  The results of \<^verbatim>\<open>Send\<close> and \<^verbatim>\<open>doRequest\<close>: the response, the body read (\<open>None\<close>
  when it is nil), the redirect URL and the error, with the world after the call.
\<close>

type_synonym 'w sendResult = "(response option \<times> string option \<times> string \<times> error option) \<times> 'w"

definition compose :: "'w env \<Rightarrow> request \<Rightarrow> ('w, 'x) HttpClientDetails_scheme \<Rightarrow> request" where
  "compose E req httpClientsDetails =
     addUberTraceIdHeaderIfSet E
       (copyHeaders httpClientsDetails
          (addUserAgentHeader E (setAuthentication (req\<lparr>Close := True\<rparr>) httpClientsDetails)))"

text \<open>
  After the exchange, when it was not a captured redirect: an error is returned as it
  is; otherwise the body is read and closed if \<open>closeBody\<close> is set. The error of reading
  is dropped, the error of closing is returned.
\<close>

definition afterDo :: "doResult \<Rightarrow> string \<Rightarrow> bool \<Rightarrow> 'w \<Rightarrow> 'w sendResult" where
  "afterDo result redirectUrl closeBody w =
     (case result of
        Failed e \<Rightarrow> ((None, None, redirectUrl, Some e), w)
      | RedirectBlocked r e \<Rightarrow> ((Some r, None, redirectUrl, Some e), w)
      | Responded r \<Rightarrow>
          (if closeBody then ((Some r, Some (RespBody r), redirectUrl, Join None (CheckError (CloseErr r))), w)
           else ((Some r, None, redirectUrl, None), w)))"

text \<open>
  \<^verbatim>\<open>doRequest\<close>. The parameter \<open>SendPost\<close> stands for \<^verbatim>\<open>jc.SendPost\<close>, which the function
  calls to follow the redirect of a POST on its own.
\<close>

definition doRequest ::
  "'w env \<Rightarrow> (string \<Rightarrow> string option \<Rightarrow> 'w HttpClientDetails \<Rightarrow> 'w \<Rightarrow> 'w sendResult option)
     \<Rightarrow> 'w HttpClient \<Rightarrow> request \<Rightarrow> string option \<Rightarrow> bool \<Rightarrow> bool \<Rightarrow> 'w HttpClientDetails \<Rightarrow> 'w
     \<Rightarrow> 'w sendResult option" where
  "doRequest E SendPost jc req0 content followRedirect closeBody httpClientsDetails w =
     (let req = compose E req0 httpClientsDetails
      in case (if \<not> followRedirect \<or> (followRedirect \<and> Method req = ''POST'')
               then doCapture E jc req w
               else (case Do jc req w of (r, w') \<Rightarrow> ((r, ''''), w'))) of
           ((result, redirectUrl), w1) \<Rightarrow>
             if errOf result \<noteq> None \<and> redirectUrl \<noteq> '''' then
               (if \<not> followRedirect then Some ((respOf result, None, redirectUrl, errOf result), w1)
                else if Method req = ''POST'' then
                  (case SendPost redirectUrl content httpClientsDetails w1 of
                     None \<Rightarrow> None
                   | Some ((resp, respBody, _, err), w2) \<Rightarrow> Some ((resp, respBody, '''', err), w2))
                else Some (afterDo result redirectUrl closeBody w1))
             else Some (afterDo result redirectUrl closeBody w1))"

subsection \<open>Send\<close>

text \<open>
  The handler of \<^verbatim>\<open>Send\<close> assigns the results of the attempt to the named results
  \<^verbatim>\<open>resp\<close>, \<^verbatim>\<open>respBody\<close> and \<^verbatim>\<open>redirectUrl\<close> of \<^verbatim>\<open>Send\<close>; they and the world are its
  state. The named result \<^verbatim>\<open>err\<close> is overwritten by what \<^verbatim>\<open>Execute\<close> returns.
\<close>

type_synonym 'w sendState = "(response option \<times> string option \<times> string) \<times> 'w"

definition invalidUrlHint :: "'w env \<Rightarrow> error \<Rightarrow> string \<Rightarrow> error" where
  "invalidUrlHint E err url =
     Error (message err @ [CHR 0x0A] @ ''The received error indicates an invalid URL: '' @ Quote E url
       @ '', Please ensure the URL includes a valid scheme like '' @ [CHR 0x27] @ ''http://'' @ [CHR 0x27]
       @ '' or '' @ [CHR 0x27] @ ''https://'' @ [CHR 0x27] @ ''.'')"

definition sendHandler ::
  "'w env \<Rightarrow> (string \<Rightarrow> string option \<Rightarrow> 'w HttpClientDetails \<Rightarrow> 'w \<Rightarrow> 'w sendResult option)
     \<Rightarrow> 'w HttpClient \<Rightarrow> string \<Rightarrow> string \<Rightarrow> string option \<Rightarrow> bool \<Rightarrow> bool \<Rightarrow> 'w HttpClientDetails \<Rightarrow> string
     \<Rightarrow> 'w sendState \<Rightarrow> ((bool \<times> error option) \<times> 'w sendState) option" where
  "sendHandler E SendPost jc method url content followRedirect closeBody httpClientsDetails logMsgPrefix st =
     (case st of (vars, w) \<Rightarrow>
        (case createReq E method url content of
           (None, err) \<Rightarrow> Some ((True, err), (vars, w))
         | (Some req, _) \<Rightarrow>
             (case doRequest E SendPost jc req content followRedirect closeBody httpClientsDetails w of
                None \<Rightarrow> None
              | Some ((resp, respBody, redirectUrl, err), w1) \<Rightarrow>
                  (case err of
                     Some e \<Rightarrow>
                       if sublist ''unsupported protocol scheme'' (message e)
                       then Some ((False, Some (invalidUrlHint E e url)), ((resp, respBody, redirectUrl), w1))
                       else Some ((True, Some e), ((resp, respBody, redirectUrl), w1))
                   | None \<Rightarrow>
                       (case resp of
                          None \<Rightarrow>
                            Some ((False, CheckErrorf (logMsgPrefix @ ''Received empty response from server'')),
                                  ((resp, respBody, redirectUrl), w1))
                        | Some r \<Rightarrow>
                            (case shouldRetry r httpClientsDetails w1 of
                               (retry, w2) \<Rightarrow>
                                 Some ((retry, None), ((resp, respBody, redirectUrl), w2))))))))"

text \<open>
  \<^verbatim>\<open>Send\<close> calls itself through \<^verbatim>\<open>doRequest\<close> and \<^verbatim>\<open>SendPost\<close> once for every redirect
  of a POST it follows, with no bound of its own. The first argument bounds the depth of
  these nested calls; \<open>None\<close> says that the bound was too small.
\<close>

primrec Send ::
  "nat \<Rightarrow> 'w env \<Rightarrow> 'w HttpClient \<Rightarrow> string \<Rightarrow> string \<Rightarrow> string option \<Rightarrow> bool \<Rightarrow> bool \<Rightarrow> 'w HttpClientDetails \<Rightarrow> string
     \<Rightarrow> 'w \<Rightarrow> 'w sendResult option" where
  "Send 0 E jc method url content followRedirect closeBody httpClientsDetails logMsgPrefix w = None"
| "Send (Suc depth) E jc method url content followRedirect closeBody httpClientsDetails logMsgPrefix w =
     (case Execute (retries jc) (''Failure occurred while sending '' @ method @ '' request to '' @ url)
             (\<lambda>st. ctxCancelled jc (snd st))
             (sendHandler E (\<lambda>u c d. Send depth E jc ''POST'' u c True True d '''')
                jc method url content followRedirect closeBody httpClientsDetails logMsgPrefix)
             ((None, None, ''''), w) of
        None \<Rightarrow> None
      | Some (err, ((resp, respBody, redirectUrl), w')) \<Rightarrow> Some ((resp, respBody, redirectUrl, err), w'))"

definition SendPost ::
  "nat \<Rightarrow> 'w env \<Rightarrow> 'w HttpClient \<Rightarrow> string \<Rightarrow> string option \<Rightarrow> 'w HttpClientDetails \<Rightarrow> string \<Rightarrow> 'w \<Rightarrow> 'w sendResult option" where
  "SendPost depth E jc url content httpClientsDetails logMsgPrefix w =
     Send depth E jc ''POST'' url content True True httpClientsDetails logMsgPrefix w"

definition SendHead ::
  "nat \<Rightarrow> 'w env \<Rightarrow> 'w HttpClient \<Rightarrow> string \<Rightarrow> 'w HttpClientDetails \<Rightarrow> string \<Rightarrow> 'w \<Rightarrow> 'w sendResult option" where
  "SendHead depth E jc url httpClientsDetails logMsgPrefix w =
     Send depth E jc ''HEAD'' url None True True httpClientsDetails logMsgPrefix w"

text \<open>
  The value the caller supplies for a header: that of the last entry, in the order of the
  iteration, whose name has the canonical form \<open>key\<close>.
\<close>

definition callerValue :: "string \<Rightarrow> (string \<times> string) list option \<Rightarrow> string option" where
  "callerValue key hs =
     (case filter (\<lambda>(name, v). CanonicalMIMEHeaderKey name = key) (case hs of None \<Rightarrow> [] | Some l \<Rightarrow> l) of
        [] \<Rightarrow> None
      | x # xs \<Rightarrow> Some (snd (last (x # xs))))"

section \<open>Upload\<close>

text \<open>
  Modelled from the spec: \<^verbatim>\<open>errorutils.CheckResponseStatus\<close> and
  \<^verbatim>\<open>errorutils.CheckResponseStatusWithBody\<close> are not among the sources. Sections 4.5 and
  7 of the spec: a status outside the expected ones is an error that carries the status
  line and the body; an expected status is no error.
\<close>

definition GenerateResponseError :: "string \<Rightarrow> string \<Rightarrow> error" where
  "GenerateResponseError status body =
     Error (''server response: '' @ status @ (if body = '''' then '''' else [CHR 0x0A] @ body))"

definition CheckResponseStatusWithBody :: "response \<Rightarrow> string \<Rightarrow> int list \<Rightarrow> error option" where
  "CheckResponseStatusWithBody resp body expectedStatusCodes =
     (if StatusCode resp \<in> set expectedStatusCodes then None
      else CheckError (Some (GenerateResponseError (Status resp) body)))"

definition CheckResponseStatus :: "response \<Rightarrow> int list \<Rightarrow> error option" where
  "CheckResponseStatus resp expectedStatusCodes =
     CheckResponseStatusWithBody resp (RespBody resp) expectedStatusCodes"

definition StatusOK :: int where
  "StatusOK = 200"

definition StatusCreated :: int where
  "StatusCreated = 201"

definition StatusAccepted :: int where
  "StatusAccepted = 202"

text \<open>
  \<^verbatim>\<open>UploadFileFromReader\<close>; \<open>reader\<close> is the content the reader delivers. The request
  goes through \<^verbatim>\<open>jc.client\<close> itself.
\<close>

definition uploadRequest :: "'w env \<Rightarrow> request \<Rightarrow> ('w, 'x) HttpClientDetails_scheme \<Rightarrow> int \<Rightarrow> request" where
  "uploadRequest E req0 httpClientsDetails sz =
     addUserAgentHeader E
       (setAuthentication
          (setRequestHeaders httpClientsDetails sz (req0\<lparr>ContentLength := sz, Close := True\<rparr>))
          httpClientsDetails)"

definition UploadFileFromReader ::
  "'w env \<Rightarrow> 'w HttpClient \<Rightarrow> string \<Rightarrow> string \<Rightarrow> 'w HttpClientDetails \<Rightarrow> int \<Rightarrow> 'w
     \<Rightarrow> (response option \<times> string option \<times> error option) \<times> 'w" where
  "UploadFileFromReader E jc reader url httpClientsDetails sz w =
     (case newRequest E ''PUT'' url (Some reader) of
        (None, err) \<Rightarrow> ((None, None, err), w)
      | (Some req0, _) \<Rightarrow>
          (case Do jc (uploadRequest E req0 httpClientsDetails sz) w of
             (Failed e, w1) \<Rightarrow> ((None, None, Some e), w1)
           | (RedirectBlocked r e, w1) \<Rightarrow> ((Some r, None, Some e), w1)
           | (Responded r, w1) \<Rightarrow>
               (case CheckResponseStatus r [StatusCreated, StatusOK, StatusAccepted] of
                  Some e \<Rightarrow> ((Some r, None, Join (Some e) (CheckError (CloseErr r))), w1)
                | None \<Rightarrow>
                    ((Some r, Some (RespBody r), Join (CheckError (ReadErr r)) (CheckError (CloseErr r))), w1))))"

text \<open>
  \<^verbatim>\<open>doUploadFile\<close>. Without a local path there is no file: the size is 0 and the content
  empty (section 4.5 of the spec; \<^verbatim>\<open>fileutils.GetFileSize\<close> and
  \<^verbatim>\<open>fileutils.GetUploadRequestContent\<close> are not among the sources). The progress reader
  only observes the bytes.
\<close>

definition doUploadFile ::
  "'w env \<Rightarrow> 'w HttpClient \<Rightarrow> string \<Rightarrow> string \<Rightarrow> 'w HttpClientDetails \<Rightarrow> 'w
     \<Rightarrow> (response option \<times> string option \<times> error option) \<times> 'w" where
  "doUploadFile E jc localPath url httpClientsDetails w =
     (if localPath \<noteq> '''' then
        (case osOpen E localPath w of
           Inl e \<Rightarrow> ((None, None, Some e), w)
         | Inr content \<Rightarrow>
             (case GetFileSize E localPath w of
                Inl e \<Rightarrow> ((None, None, Join (Some e) (CheckError (fileClose E localPath w))), w)
              | Inr sz \<Rightarrow>
                  (case UploadFileFromReader E jc content url httpClientsDetails sz w of
                     ((resp, body, err), w1) \<Rightarrow>
                       ((resp, body, Join err (CheckError (fileClose E localPath w1))), w1))))
      else UploadFileFromReader E jc '''' url httpClientsDetails 0 w)"

definition uploadHandler ::
  "'w env \<Rightarrow> 'w HttpClient \<Rightarrow> string \<Rightarrow> string \<Rightarrow> string \<Rightarrow> 'w HttpClientDetails
     \<Rightarrow> (response option \<times> string option) \<times> 'w
     \<Rightarrow> ((bool \<times> error option) \<times> ((response option \<times> string option) \<times> 'w)) option" where
  "uploadHandler E jc localPath url logMsgPrefix httpClientsDetails st =
     (case doUploadFile E jc localPath url httpClientsDetails (snd st) of
        ((resp, body, err), w1) \<Rightarrow>
          (if err \<noteq> None then Some ((True, err), ((resp, body), w1))
           else case resp of
                  None \<Rightarrow>
                    Some ((False, CheckErrorf (logMsgPrefix @ ''Received empty response from file upload'')),
                          ((resp, body), w1))
                | Some r \<Rightarrow>
                    if StatusCode r < 500 then Some ((False, None), ((resp, body), w1))
                    else Some ((True, None), ((resp, body), w1))))"

definition UploadFile ::
  "'w env \<Rightarrow> 'w HttpClient \<Rightarrow> string \<Rightarrow> string \<Rightarrow> string \<Rightarrow> 'w HttpClientDetails \<Rightarrow> 'w
     \<Rightarrow> ((response option \<times> string option \<times> error option) \<times> 'w) option" where
  "UploadFile E jc localPath url logMsgPrefix httpClientsDetails w =
     (case Execute (retries jc) (''Failure occurred while uploading to '' @ url) (\<lambda>st. False)
             (uploadHandler E jc localPath url logMsgPrefix httpClientsDetails) ((None, None), w) of
        None \<Rightarrow> None
      | Some (err, ((resp, body), w')) \<Rightarrow> Some ((resp, body, err), w'))"

section \<open>Remote file details\<close>

text \<open>
  \<^verbatim>\<open>strconv.ParseInt(s, 10, 64)\<close>: an optional sign and one or more decimal digits, the
  value within the range of \<^verbatim>\<open>int64\<close>.
\<close>

fun parseDigits :: "string \<Rightarrow> nat \<Rightarrow> nat option" where
  "parseDigits [] acc = Some acc"
| "parseDigits (c # cs) acc =
     (if c \<in> set ''0123456789'' then parseDigits cs (acc * 10 + ((of_char c :: nat) - 48)) else None)"

definition ParseInt :: "'w env \<Rightarrow> string \<Rightarrow> error + int" where
  "ParseInt E s =
     (let neg = (s \<noteq> [] \<and> hd s = CHR ''-'');
          ds = (if s \<noteq> [] \<and> (hd s = CHR ''+'' \<or> hd s = CHR ''-'') then tl s else s)
      in case (if ds = [] then None else parseDigits ds 0) of
           None \<Rightarrow> Inl (Error (''strconv.ParseInt: parsing '' @ Quote E s @ '': invalid syntax''))
         | Some n \<Rightarrow>
             if (neg \<and> n > 2 ^ 63) \<or> (\<not> neg \<and> n \<ge> 2 ^ 63)
             then Inl (Error (''strconv.ParseInt: parsing '' @ Quote E s @ '': value out of range''))
             else Inr (if neg then - int n else int n))"

text \<open>
  \<^verbatim>\<open>fileutils.FileDetails\<close> (its declaration is not among the sources): the three
  checksums, which the source reaches through the field \<^verbatim>\<open>Checksum\<close>, and the size.
\<close>

record FileDetails =
  Md5 :: string
  Sha1 :: string
  Sha256 :: string
  Size :: int

definition GetRemoteFileDetails ::
  "nat \<Rightarrow> 'w env \<Rightarrow> 'w HttpClient \<Rightarrow> string \<Rightarrow> 'w HttpClientDetails \<Rightarrow> 'w
     \<Rightarrow> ((FileDetails option \<times> response option \<times> error option) outcome \<times> 'w) option" where
  "GetRemoteFileDetails depth E jc downloadUrl httpClientsDetails w =
     (case SendHead depth E jc downloadUrl httpClientsDetails '''' w of
        None \<Rightarrow> None
      | Some ((resp, body, _, err), w') \<Rightarrow>
          (if err \<noteq> None then Some (Return (None, None, err), w')
           else case resp of
                  None \<Rightarrow> Some (Panic ''nil pointer dereference'', w')
                | Some r \<Rightarrow>
                    (case CheckResponseStatusWithBody r (case body of None \<Rightarrow> '''' | Some b \<Rightarrow> b) [StatusOK] of
                       Some e \<Rightarrow> Some (Return (None, None, Some e), w')
                     | None \<Rightarrow>
                         (let contentLength = headerGet (RespHeader r) ''Content-Length''
                          in if length contentLength > 0 then
                               (case ParseInt E contentLength of
                                  Inl e \<Rightarrow> Some (Return (None, None, Some e), w')
                                | Inr fileSize \<Rightarrow>
                                    Some (Return
                                      (Some \<lparr>Md5 = headerGet (RespHeader r) ''X-Checksum-Md5'',
                                             Sha1 = headerGet (RespHeader r) ''X-Checksum-Sha1'',
                                             Sha256 = headerGet (RespHeader r) ''X-Checksum-Sha256'',
                                             Size = fileSize\<rparr>, Some r, None), w'))
                             else
                               Some (Return
                                 (Some \<lparr>Md5 = headerGet (RespHeader r) ''X-Checksum-Md5'',
                                        Sha1 = headerGet (RespHeader r) ''X-Checksum-Sha1'',
                                        Sha256 = headerGet (RespHeader r) ''X-Checksum-Sha256'',
                                        Size = 0\<rparr>, Some r, None), w')))))"

section \<open>A concrete environment, servers and clients\<close>

text \<open>
  The world of these clients is the list of the requests sent so far. A server answers
  each request by a response that depends on the request only.
\<close>

definition env0 :: "(request list) env" where
  "env0 = \<lparr>uberTraceIdToken = '''', GetUserAgent = ''jfrog-client-go/1.0'',
     NewRequestErr = (\<lambda>method url. None), ResolveLocation = (\<lambda>base loc. Some loc),
     Quote = (\<lambda>s. [CHR 0x22] @ s @ [CHR 0x22]),
     osOpen = (\<lambda>path w. Inr ''data''), GetFileSize = (\<lambda>path w. Inr 4), fileClose = (\<lambda>path w. None)\<rparr>"

definition serving :: "(request \<Rightarrow> response) \<Rightarrow> int \<Rightarrow> (request list) HttpClient" where
  "serving server r =
     \<lparr>Do = (\<lambda>req log. (Responded (server req), log @ [req])),
      RoundTrip = (\<lambda>req log. (Inr (server req), log @ [req])),
      ctxCancelled = (\<lambda>log. False), retries = r, retryWaitMilliSecs = 0\<rparr>"

definition plainDetails :: "(request list) HttpClientDetails" where
  "plainDetails = \<lparr>User = '''', Password = '''', ApiKey = '''', AccessToken = '''',
     Headers = None, PreRetryInterceptors = []\<rparr>"

definition headNoLength :: response where
  "headNoLength = \<lparr>StatusCode = 200, Status = ''200 OK'',
     RespHeader = [''X-Checksum-Sha1'' \<mapsto> [''4a''], ''X-Checksum-Md5'' \<mapsto> [''0f'']],
     RespBody = '''', ReadErr = None, CloseErr = None\<rparr>"

definition found302 :: response where
  "found302 = \<lparr>StatusCode = 302, Status = ''302 Found'',
     RespHeader = [''Location'' \<mapsto> [''http://b/y'']],
     RespBody = '''', ReadErr = None, CloseErr = None\<rparr>"

definition redirecting :: "request \<Rightarrow> response" where
  "redirecting req = (if URL req = ''http://a/x'' then found302 else ok200)"

section \<open>Concurrent chunk download: partition, dispatch and join\<close>

text \<open>
  \<^verbatim>\<open>downloadChunksConcurrently\<close>. A worker is the goroutine that runs
  \<^verbatim>\<open>downloadFileRange\<close> on \<open>(start, end, i)\<close> and stores what it returned in slot
  \<open>i\<close> of the three slices; the model takes what the worker returns as a function of
  its arguments. A slot is \<open>(chunk path, response, error)\<close>.
\<close>

type_synonym slot = "string \<times> response option \<times> error option"

type_synonym chunk = "int \<times> int \<times> nat"

definition chunkStart :: "int \<Rightarrow> nat \<Rightarrow> int" where
  "chunkStart chunkSize i = mul64 chunkSize (int i)"

definition chunkEnd :: "int \<Rightarrow> int \<Rightarrow> int \<Rightarrow> nat \<Rightarrow> int" where
  "chunkEnd chunkSize md splitCount i =
     (let end = mul64 chunkSize (add64 (int i) 1)
      in if int i = splitCount - 1 then add64 end md else end)"

text \<open>
  The two shared variables \<^verbatim>\<open>err\<close> and \<^verbatim>\<open>resp\<close> are written by a worker only when
  its error is not nil, respectively when its response is not nil and not 206. So the
  dispatcher's two tests succeed exactly when it sees the write of a worker that failed
  in this sense.
\<close>

definition failed :: "slot \<Rightarrow> bool" where
  "failed s = (case s of (_, r, e) \<Rightarrow>
     e \<noteq> None \<or> (case r of None \<Rightarrow> False | Some x \<Rightarrow> StatusCode x \<noteq> StatusPartialContent))"

text \<open>
  The dispatch loop. Which workers have finished when the dispatcher tests the shared
  variables depends on the scheduler: \<open>seen i\<close> lists the workers whose writes the
  dispatcher observes at iteration \<open>i\<close> (only workers started before count). The loop
  returns the chunks it started a worker for, in order.
\<close>

definition fastFail :: "(int \<Rightarrow> int \<Rightarrow> nat \<Rightarrow> slot) \<Rightarrow> nat list \<Rightarrow> chunk list \<Rightarrow> bool" where
  "fastFail worker obs started =
     list_ex (\<lambda>(s, e, j). j \<in> set obs \<and> failed (worker s e j)) started"

function dispatchLoop ::
  "int \<Rightarrow> int \<Rightarrow> int \<Rightarrow> (int \<Rightarrow> int \<Rightarrow> nat \<Rightarrow> slot) \<Rightarrow> (nat \<Rightarrow> nat list) \<Rightarrow> nat \<Rightarrow> chunk list \<Rightarrow> chunk list"
where
  "dispatchLoop chunkSize md splitCount worker seen i started =
     (if int i < splitCount then
        (if fastFail worker (seen i) started then started
         else dispatchLoop chunkSize md splitCount worker seen (i + 1)
                (started @ [(chunkStart chunkSize i, chunkEnd chunkSize md splitCount i, i)]))
      else started)"
  by pat_completeness auto
termination
  by (relation "measure (\<lambda>(chunkSize, md, splitCount, worker, seen, i, started). nat splitCount - i)") auto

declare dispatchLoop.simps [simp del]

text \<open>The slices after \<^verbatim>\<open>wg.Wait()\<close>: every started worker has written its own slot.\<close>

fun store :: "(int \<Rightarrow> int \<Rightarrow> nat \<Rightarrow> slot) \<Rightarrow> chunk list \<Rightarrow> slot list \<Rightarrow> slot list" where
  "store worker [] slots = slots"
| "store worker ((s, e, i) # cs) slots = store worker cs (slots[i := worker s e i])"

text \<open>
  The join: the first loop returns the first error that is not nil; the second reads
  \<^verbatim>\<open>r.StatusCode\<close> of every response in index order, which panics on a nil response;
  the last line indexes the slice at \<open>len - 1\<close>.
\<close>

fun firstError :: "error option list \<Rightarrow> error option" where
  "firstError [] = None"
| "firstError (None # es) = firstError es"
| "firstError (Some e # es) = Some e"

datatype scan = AllPartial | Unexpected response | NilResponse

fun scanResponses :: "response option list \<Rightarrow> scan" where
  "scanResponses [] = AllPartial"
| "scanResponses (None # rs) = NilResponse"
| "scanResponses (Some r # rs) =
     (if StatusCode r \<noteq> StatusPartialContent then Unexpected r else scanResponses rs)"

definition joinChunks :: "error option list \<Rightarrow> response option list \<Rightarrow> (response option \<times> error option) outcome" where
  "joinChunks errorsList respList =
     (case firstError errorsList of
        Some e \<Rightarrow> Return (None, CheckError (Some e))
      | None \<Rightarrow>
          (case scanResponses respList of
             Unexpected r \<Rightarrow> Return (Some r, None)
           | NilResponse \<Rightarrow> Panic ''nil pointer dereference''
           | AllPartial \<Rightarrow>
               (if respList = [] then Panic ''index out of range''
                else Return (last respList, None))))"

definition emptySlot :: slot where
  "emptySlot = ('''', None, None)"

definition startedChunks :: "ConcurrentDownloadFlags \<Rightarrow> (int \<Rightarrow> int \<Rightarrow> nat \<Rightarrow> slot) \<Rightarrow> (nat \<Rightarrow> nat list) \<Rightarrow> chunk list" where
  "startedChunks flags worker seen =
     dispatchLoop (quo64 (FileSize flags) (SplitCount flags)) (rem64 (FileSize flags) (SplitCount flags))
       (SplitCount flags) worker seen 0 []"

definition slotsAfterWait :: "ConcurrentDownloadFlags \<Rightarrow> (int \<Rightarrow> int \<Rightarrow> nat \<Rightarrow> slot) \<Rightarrow> (nat \<Rightarrow> nat list) \<Rightarrow> slot list" where
  "slotsAfterWait flags worker seen =
     store worker (startedChunks flags worker seen) (replicate (nat (SplitCount flags)) emptySlot)"

definition errorsAfterWait :: "ConcurrentDownloadFlags \<Rightarrow> (int \<Rightarrow> int \<Rightarrow> nat \<Rightarrow> slot) \<Rightarrow> (nat \<Rightarrow> nat list) \<Rightarrow> error option list" where
  "errorsAfterWait flags worker seen = map (\<lambda>s. snd (snd s)) (slotsAfterWait flags worker seen)"

definition responsesAfterWait :: "ConcurrentDownloadFlags \<Rightarrow> (int \<Rightarrow> int \<Rightarrow> nat \<Rightarrow> slot) \<Rightarrow> (nat \<Rightarrow> nat list) \<Rightarrow> response option list" where
  "responsesAfterWait flags worker seen = map (\<lambda>s. fst (snd s)) (slotsAfterWait flags worker seen)"

text \<open>
  \<^verbatim>\<open>downloadChunksConcurrently\<close>: a split count of zero panics in the division, a
  negative one in \<^verbatim>\<open>make\<close>. The chunk paths are the first components of the slots.
\<close>

definition downloadChunksConcurrently ::
  "ConcurrentDownloadFlags \<Rightarrow> (int \<Rightarrow> int \<Rightarrow> nat \<Rightarrow> slot) \<Rightarrow> (nat \<Rightarrow> nat list) \<Rightarrow> (response option \<times> error option) outcome" where
  "downloadChunksConcurrently flags worker seen =
     (if SplitCount flags = 0 then Panic ''integer divide by zero''
      else if SplitCount flags < 0 then Panic ''makeslice: len out of range''
      else joinChunks (errorsAfterWait flags worker seen) (responsesAfterWait flags worker seen))"

subsection \<open>Notions used to state the properties of the chunk download\<close>

text \<open>
  The range and the triple \<open>(start, end, i)\<close> the loop body computes at iteration \<open>i\<close>,
  what the worker of chunk \<open>i\<close> returns, and a response that is present with a status
  other than 206.
\<close>

definition chunkOf :: "int \<Rightarrow> int \<Rightarrow> int \<Rightarrow> nat \<Rightarrow> chunk" where
  "chunkOf chunkSize md splitCount i = (chunkStart chunkSize i, chunkEnd chunkSize md splitCount i, i)"

definition workerAt :: "int \<Rightarrow> int \<Rightarrow> int \<Rightarrow> (int \<Rightarrow> int \<Rightarrow> nat \<Rightarrow> slot) \<Rightarrow> nat \<Rightarrow> slot" where
  "workerAt chunkSize md splitCount worker i =
     worker (chunkStart chunkSize i) (chunkEnd chunkSize md splitCount i) i"

definition chunkRange :: "ConcurrentDownloadFlags \<Rightarrow> nat \<Rightarrow> int \<times> int" where
  "chunkRange flags i =
     (chunkStart (quo64 (FileSize flags) (SplitCount flags)) i,
      chunkEnd (quo64 (FileSize flags) (SplitCount flags)) (rem64 (FileSize flags) (SplitCount flags))
        (SplitCount flags) i)"

definition chunkTriple :: "ConcurrentDownloadFlags \<Rightarrow> nat \<Rightarrow> chunk" where
  "chunkTriple flags i = (fst (chunkRange flags i), snd (chunkRange flags i), i)"

definition unexpected :: "response option \<Rightarrow> bool" where
  "unexpected r = (case r of None \<Rightarrow> False | Some x \<Rightarrow> StatusCode x \<noteq> StatusPartialContent)"

subsection \<open>Concrete downloads\<close>

definition flags10by3 :: ConcurrentDownloadFlags where
  "flags10by3 = \<lparr>FileName = ''f'', DownloadPath = ''http://h/f'', RelativePath = ''f'', LocalFileName = ''f'',
     LocalPath = '''', ExpectedSha1 = '''', ExpectedSha256 = '''', FileSize = 10, SplitCount = 3,
     Explode = False, BypassArchiveInspection = False, SkipChecksum = False\<rparr>"

definition allPartial :: "int \<Rightarrow> int \<Rightarrow> nat \<Rightarrow> slot" where
  "allPartial s e i = (''chunk'', Some partial206, None)"

definition secondNotFound :: "int \<Rightarrow> int \<Rightarrow> nat \<Rightarrow> slot" where
  "secondNotFound s e i =
     (if i = 1 then ('''', Some notFound404, None) else (''chunk'', Some partial206, None))"

section \<open>The download of one chunk\<close>

text \<open>
  What the file system answers during \<^verbatim>\<open>doDownloadFileRange\<close>: \<^verbatim>\<open>os.CreateTemp\<close> (the
  name of the file), \<^verbatim>\<open>os.MkdirAll\<close>, writing in \<^verbatim>\<open>io.Copy\<close>, and closing the file.
\<close>

record rangeIO =
  CreateTemp :: "error + string"
  MkdirAll :: "error option"
  WriteTemp :: "error option"
  CloseTemp :: "error option"

text \<open>
  \<^verbatim>\<open>httpClientsDetails.Headers["Range"] = ...\<close> on the worker's own copy of the details:
  the entry of that very key is replaced, or a new entry is added; the map is made first
  when it is nil. (A new entry is put last in the order of the iteration here; Go leaves
  its place open.)
\<close>

definition setHeaderEntry :: "(string \<times> string) list option \<Rightarrow> string \<Rightarrow> string \<Rightarrow> (string \<times> string) list option" where
  "setHeaderEntry hs key v =
     (case hs of
        None \<Rightarrow> Some [(key, v)]
      | Some l \<Rightarrow>
          Some (if key \<in> set (map fst l) then map (\<lambda>(k, x). if k = key then (k, v) else (k, x)) l
                else l @ [(key, v)]))"

definition rangeHeader :: "int \<Rightarrow> int \<Rightarrow> string" where
  "rangeHeader start end = ''bytes='' @ FormatInt start @ ''-'' @ FormatInt (add64 end (- 1))"

text \<open>
  \<^verbatim>\<open>doDownloadFileRange\<close>. The deferred functions run after the results are set: the
  body is closed if the response returned is not nil, then the temporary file is closed,
  and their errors are joined to the error returned. Reading \<^verbatim>\<open>resp.StatusCode\<close> panics
  on a nil response.
\<close>

definition doDownloadFileRange ::
  "nat \<Rightarrow> 'w env \<Rightarrow> 'w HttpClient \<Rightarrow> ConcurrentDownloadFlags \<Rightarrow> int \<Rightarrow> int \<Rightarrow> nat \<Rightarrow> 'w HttpClientDetails
     \<Rightarrow> rangeIO \<Rightarrow> 'w \<Rightarrow> (slot outcome \<times> 'w) option" where
  "doDownloadFileRange depth E jc flags start end currentSplit httpClientsDetails io w =
     (case CreateTemp io of
        Inl e \<Rightarrow> Some (Return ('''', None, Some e), w)
      | Inr tempName \<Rightarrow>
          (case Send depth E jc ''GET'' (DownloadPath flags) None True False
                  (httpClientsDetails\<lparr>Headers :=
                     setHeaderEntry (Headers httpClientsDetails) ''Range'' (rangeHeader start end)\<rparr>) '''' w of
             None \<Rightarrow> None
           | Some ((resp, _, _, err), w1) \<Rightarrow>
               (if err \<noteq> None then Some (Return ('''', None, Join err (CheckError (CloseTemp io))), w1)
                else case resp of
                       None \<Rightarrow> Some (Panic ''nil pointer dereference'', w1)
                     | Some r \<Rightarrow>
                         if StatusCode r \<noteq> StatusPartialContent then
                           Some (Return ('''', Some r,
                                   Join (Join None (CheckError (CloseErr r))) (CheckError (CloseTemp io))), w1)
                         else if CheckError (MkdirAll io) \<noteq> None then
                           Some (Return ('''', None, Join (MkdirAll io) (CheckError (CloseTemp io))), w1)
                         else if CheckError (copyErr r (WriteTemp io)) \<noteq> None then
                           Some (Return ('''', None,
                                   Join (copyErr r (WriteTemp io)) (CheckError (CloseTemp io))), w1)
                         else
                           Some (Return (tempName, Some r,
                                   Join (Join None (CheckError (CloseErr r))) (CheckError (CloseTemp io))), w1))))"

text \<open>
  \<^verbatim>\<open>downloadFileRange\<close>. The state of its handler: the named results \<^verbatim>\<open>fileName\<close> and
  \<^verbatim>\<open>resp\<close>, whether the attempt panicked (which ends the execution), and the world.
\<close>

definition rangeHandler ::
  "nat \<Rightarrow> 'w env \<Rightarrow> 'w HttpClient \<Rightarrow> ConcurrentDownloadFlags \<Rightarrow> int \<Rightarrow> int \<Rightarrow> nat \<Rightarrow> string \<Rightarrow> 'w HttpClientDetails
     \<Rightarrow> rangeIO \<Rightarrow> (string \<times> response option \<times> bool) \<times> 'w
     \<Rightarrow> ((bool \<times> error option) \<times> ((string \<times> response option \<times> bool) \<times> 'w)) option" where
  "rangeHandler depth E jc flags start end currentSplit logMsgPrefix httpClientsDetails io st =
     (case doDownloadFileRange depth E jc flags start end currentSplit httpClientsDetails io (snd st) of
        None \<Rightarrow> None
      | Some (Panic p, w1) \<Rightarrow> Some ((False, None), (('''', None, True), w1))
      | Some (Return (fileName, resp, err), w1) \<Rightarrow>
          (if err \<noteq> None then Some ((True, err), ((fileName, resp, False), w1))
           else case resp of
                  None \<Rightarrow>
                    Some ((False, CheckErrorf (logMsgPrefix @ ''['' @ FormatInt (int currentSplit)
                                    @ '']: Received empty response from file download'')),
                          ((fileName, resp, False), w1))
                | Some r \<Rightarrow>
                    if StatusCode r < 500 then Some ((False, None), ((fileName, resp, False), w1))
                    else Some ((True, None), ((fileName, resp, False), w1))))"

definition downloadFileRange ::
  "nat \<Rightarrow> 'w env \<Rightarrow> 'w HttpClient \<Rightarrow> ConcurrentDownloadFlags \<Rightarrow> int \<Rightarrow> int \<Rightarrow> nat \<Rightarrow> string \<Rightarrow> 'w HttpClientDetails
     \<Rightarrow> rangeIO \<Rightarrow> 'w \<Rightarrow> (slot outcome \<times> 'w) option" where
  "downloadFileRange depth E jc flags start end currentSplit logMsgPrefix httpClientsDetails io w =
     (case Execute (retries jc)
             (''Failure occurred while downloading part '' @ FormatInt (int currentSplit) @ '' of ''
                @ DownloadPath flags)
             (\<lambda>st. False)
             (rangeHandler depth E jc flags start end currentSplit logMsgPrefix httpClientsDetails io)
             (('''', None, False), w) of
        None \<Rightarrow> None
      | Some (err, ((fileName, resp, panicked), w')) \<Rightarrow>
          if panicked then Some (Panic ''nil pointer dereference'', w')
          else Some (Return (fileName, resp, err), w'))"

text \<open>A file system on which every step of the worker succeeds.\<close>

definition rangeFine :: rangeIO where
  "rangeFine = \<lparr>CreateTemp = Inr ''chunks/1_0'', MkdirAll = None, WriteTemp = None, CloseTemp = None\<rparr>"

section \<open>Properties of authentication and of the retry predicate\<close>

lemmas canon_simps = CanonicalMIMEHeaderKey_def validHeaderFieldByte_def lowerLetters_def
  upperLetters_def toUpper_def toLower_def

lemma canon_Authorization: "CanonicalMIMEHeaderKey ''Authorization'' = ''Authorization''"
  by (simp add: canon_simps)

lemma canon_ApiKey: "CanonicalMIMEHeaderKey ''X-JFrog-Art-Api'' = ''X-Jfrog-Art-Api''"
  by (simp add: canon_simps)

lemma canon_trace: "CanonicalMIMEHeaderKey ''uber-trace-id'' = ''Uber-Trace-Id''"
  by (simp add: canon_simps)

lemma Header_SetBasicAuth:
  "Header (SetBasicAuth req u p) = headerSet (Header req) ''Authorization'' (''Basic '' @ base64Encode (u @ '':'' @ p))"
  by (simp add: SetBasicAuth_def)

lemma auth_basic:
  assumes "h ''Authorization'' = None" "h ''X-Jfrog-Art-Api'' = None"
  shows "hasBasic (headerSet h ''Authorization'' (''Basic '' @ x))"
    "\<not> hasBearer (headerSet h ''Authorization'' (''Basic '' @ x))"
    "\<not> hasApiKeyHeader (headerSet h ''Authorization'' (''Basic '' @ x))"
  using assms by (simp_all add: headerSet_def canon_Authorization hasBasic_def
      hasBearer_def hasApiKeyHeader_def)

lemma auth_bearer:
  assumes "h ''Authorization'' = None" "h ''X-Jfrog-Art-Api'' = None"
  shows "\<not> hasBasic (headerSet h ''Authorization'' (''Bearer '' @ t))"
    "hasBearer (headerSet h ''Authorization'' (''Bearer '' @ t))"
    "\<not> hasApiKeyHeader (headerSet h ''Authorization'' (''Bearer '' @ t))"
  using assms by (simp_all add: headerSet_def canon_Authorization hasBasic_def hasBearer_def
      hasApiKeyHeader_def)

lemma auth_apikey:
  assumes "h ''Authorization'' = None" "h ''X-Jfrog-Art-Api'' = None"
  shows "\<not> hasBasic (headerSet h ''X-JFrog-Art-Api'' k)"
    "\<not> hasBearer (headerSet h ''X-JFrog-Art-Api'' k)"
    "hasApiKeyHeader (headerSet h ''X-JFrog-Art-Api'' k)"
  using assms by (simp_all add: headerSet_def canon_ApiKey hasBasic_def hasBearer_def
      hasApiKeyHeader_def)

lemma auth_none:
  assumes "h ''Authorization'' = None" "h ''X-Jfrog-Art-Api'' = None"
  shows "\<not> hasBasic h" "\<not> hasBearer h" "\<not> hasApiKeyHeader h"
  using assms by (simp_all add: hasBasic_def hasBearer_def hasApiKeyHeader_def)

text \<open>
  Claim C3. For every request and every request-details value, \<^verbatim>\<open>setAuthentication\<close>
  applies the first scheme that matches, in this order: an API key with a user gives basic
  credentials (user, API key); an API key alone gives the header \<^verbatim>\<open>X-JFrog-Art-Api\<close>; an
  access token with prefix \<^verbatim>\<open>AKCp8\<close> and length at least 73 gives basic credentials
  (user, token); any other access token gives \<^verbatim>\<open>Authorization: Bearer\<close>; a password
  gives basic credentials (user, password); otherwise the request is unchanged. On a
  request that carries no authentication header yet, the result carries exactly one of
  basic credentials, the API key header and a bearer token when a credential is present,
  and none of them otherwise; which one is given by the same order.
\<close>

theorem setAuthentication_priority:
  "setAuthentication req d =
     (if ApiKey d \<noteq> '''' \<and> User d \<noteq> '''' then SetBasicAuth req (User d) (ApiKey d)
      else if ApiKey d \<noteq> '''' then req\<lparr>Header := headerSet (Header req) ''X-JFrog-Art-Api'' (ApiKey d)\<rparr>
      else if AccessToken d \<noteq> '''' \<and> prefix ''AKCp8'' (AccessToken d) \<and> 73 \<le> length (AccessToken d)
        then SetBasicAuth req (User d) (AccessToken d)
      else if AccessToken d \<noteq> ''''
        then req\<lparr>Header := headerSet (Header req) ''Authorization'' (''Bearer '' @ AccessToken d)\<rparr>
      else if Password d \<noteq> '''' then SetBasicAuth req (User d) (Password d)
      else req)
   \<and> (Header req ''Authorization'' = None \<and> Header req ''X-Jfrog-Art-Api'' = None \<longrightarrow>
        schemes (Header (setAuthentication req d)) =
          (if ApiKey d = '''' \<and> AccessToken d = '''' \<and> Password d = '''' then 0 else 1)
        \<and> hasBasic (Header (setAuthentication req d)) =
            (ApiKey d \<noteq> '''' \<and> User d \<noteq> ''''
             \<or> ApiKey d = '''' \<and> AccessToken d \<noteq> '''' \<and> IsApiKey (AccessToken d)
             \<or> ApiKey d = '''' \<and> AccessToken d = '''' \<and> Password d \<noteq> '''')
        \<and> hasApiKeyHeader (Header (setAuthentication req d)) = (ApiKey d \<noteq> '''' \<and> User d = '''')
        \<and> hasBearer (Header (setAuthentication req d)) =
            (ApiKey d = '''' \<and> AccessToken d \<noteq> '''' \<and> \<not> IsApiKey (AccessToken d)))"
proof (intro conjI impI)
  show "setAuthentication req d =
     (if ApiKey d \<noteq> '''' \<and> User d \<noteq> '''' then SetBasicAuth req (User d) (ApiKey d)
      else if ApiKey d \<noteq> '''' then req\<lparr>Header := headerSet (Header req) ''X-JFrog-Art-Api'' (ApiKey d)\<rparr>
      else if AccessToken d \<noteq> '''' \<and> prefix ''AKCp8'' (AccessToken d) \<and> 73 \<le> length (AccessToken d)
        then SetBasicAuth req (User d) (AccessToken d)
      else if AccessToken d \<noteq> ''''
        then req\<lparr>Header := headerSet (Header req) ''Authorization'' (''Bearer '' @ AccessToken d)\<rparr>
      else if Password d \<noteq> '''' then SetBasicAuth req (User d) (Password d)
      else req)"
    by (simp add: setAuthentication_def IsApiKey_def apiKeyPrefix_def apiKeyMinimalLength_def)
next
  assume "Header req ''Authorization'' = None \<and> Header req ''X-Jfrog-Art-Api'' = None"
  then have f: "Header req ''Authorization'' = None" "Header req ''X-Jfrog-Art-Api'' = None"
    by simp_all
  note facts = Header_SetBasicAuth auth_basic[OF f] auth_bearer[OF f] auth_apikey[OF f] auth_none[OF f]
  show "schemes (Header (setAuthentication req d)) =
          (if ApiKey d = '''' \<and> AccessToken d = '''' \<and> Password d = '''' then 0 else 1)"
    by (simp add: setAuthentication_def schemes_def facts del: append.simps)
  show "hasBasic (Header (setAuthentication req d)) =
            (ApiKey d \<noteq> '''' \<and> User d \<noteq> ''''
             \<or> ApiKey d = '''' \<and> AccessToken d \<noteq> '''' \<and> IsApiKey (AccessToken d)
             \<or> ApiKey d = '''' \<and> AccessToken d = '''' \<and> Password d \<noteq> '''')"
    by (simp add: setAuthentication_def facts del: append.simps)
  show "hasApiKeyHeader (Header (setAuthentication req d)) = (ApiKey d \<noteq> '''' \<and> User d = '''')"
    by (simp add: setAuthentication_def facts del: append.simps)
  show "hasBearer (Header (setAuthentication req d)) =
            (ApiKey d = '''' \<and> AccessToken d \<noteq> '''' \<and> \<not> IsApiKey (AccessToken d))"
    by (simp add: setAuthentication_def facts del: append.simps)
qed

lemma worldBefore_Cons:
  "worldBefore (f # fs) w 0 = w" "worldBefore (f # fs) w (Suc i) = worldBefore fs (snd (f w)) i"
  by (simp_all add: worldBefore_def)

lemma runInterceptors_all:
  "fst (runInterceptors ics w) \<longleftrightarrow> (\<forall>i<length ics. fst ((ics ! i) (worldBefore ics w i)))"
proof (induction ics arbitrary: w)
  case Nil
  then show ?case by simp
next
  case (Cons f fs)
  obtain ok w' where fw: "f w = (ok, w')" by (cases "f w")
  have "(\<forall>i<length (f # fs). fst (((f # fs) ! i) (worldBefore (f # fs) w i)))
      \<longleftrightarrow> fst (f w) \<and> (\<forall>i<length fs. fst ((fs ! i) (worldBefore fs (snd (f w)) i)))"
    by (simp add: All_less_Suc2 worldBefore_Cons del: All_less_Suc)
  also have "\<dots> \<longleftrightarrow> ok \<and> fst (runInterceptors fs w')"
    using Cons.IH[of w'] fw by simp
  also have "\<dots> \<longleftrightarrow> fst (runInterceptors (f # fs) w)"
    using fw by simp
  finally show ?case by simp
qed

text \<open>
  Claim C4. For every response and request details, \<^verbatim>\<open>shouldRetry\<close> returns true if and
  only if the status code is at least 500 or equals 429, and every pre-retry interceptor
  returns true. The interceptors are called in order, each in the state of the world the
  earlier ones left, until one returns false.
\<close>

theorem shouldRetry_iff:
  "fst (shouldRetry resp d w) \<longleftrightarrow>
     (500 \<le> StatusCode resp \<or> StatusCode resp = 429)
     \<and> (\<forall>i<length (PreRetryInterceptors d).
           fst ((PreRetryInterceptors d ! i) (worldBefore (PreRetryInterceptors d) w i)))"
proof (cases "StatusCode resp < 500 \<and> StatusCode resp \<noteq> 429")
  case True
  then have "shouldRetry resp d w = (False, w)"
    unfolding shouldRetry_def StatusTooManyRequests_def by simp
  then show ?thesis using True by auto
next
  case False
  then have "shouldRetry resp d w = runInterceptors (PreRetryInterceptors d) w"
    unfolding shouldRetry_def StatusTooManyRequests_def by (simp only: if_False)
  then show ?thesis using False runInterceptors_all[of "PreRetryInterceptors d" w] by auto
qed

text \<open>
  A 429 is retried while the first interceptor agrees, and not once it refuses; a 404 is
  never retried.
\<close>

theorem shouldRetry_iff_witness:
  "fst (shouldRetry tooMany429 detailsApiKeyUser 0) \<and> \<not> fst (shouldRetry tooMany429 detailsApiKeyUser 2)
   \<and> \<not> fst (shouldRetry notFound404 detailsApiKeyUser 0)"
  using shouldRetry_iff[of tooMany429 detailsApiKeyUser 0] shouldRetry_iff[of tooMany429 detailsApiKeyUser 2]
    shouldRetry_iff[of notFound404 detailsApiKeyUser 0]
  by (simp add: tooMany429_def notFound404_def detailsApiKeyUser_def worldBefore_def All_less_Suc2)

text \<open>A user with an API key (and a token and a password as well): basic credentials only.\<close>

theorem setAuthentication_priority_witness:
  "setAuthentication (newRequest0 ''GET'' ''http://h/a'' None) detailsApiKeyUser
     = SetBasicAuth (newRequest0 ''GET'' ''http://h/a'' None) ''admin'' ''key''
   \<and> schemes (Header (setAuthentication (newRequest0 ''GET'' ''http://h/a'' None) detailsApiKeyUser)) = 1
   \<and> hasBasic (Header (setAuthentication (newRequest0 ''GET'' ''http://h/a'' None) detailsApiKeyUser))
   \<and> headerGet (Header (setAuthentication (newRequest0 ''GET'' ''http://h/a'' None) detailsApiKeyUser))
        ''Authorization'' = ''Basic YWRtaW46a2V5''"
proof -
  have f: "Header (newRequest0 ''GET'' ''http://h/a'' None) ''Authorization'' = None
      \<and> Header (newRequest0 ''GET'' ''http://h/a'' None) ''X-Jfrog-Art-Api'' = None"
    by (simp add: newRequest0_def)
  have g: "headerGet (Header (SetBasicAuth (newRequest0 ''GET'' ''http://h/a'' None) ''admin'' ''key''))
        ''Authorization'' = ''Basic YWRtaW46a2V5''"
    by (simp add: SetBasicAuth_def headerSet_def headerGet_def canon_Authorization b64_def base64Alphabet_def)
  note t = setAuthentication_priority[of "newRequest0 ''GET'' ''http://h/a'' None" detailsApiKeyUser]
  have e: "setAuthentication (newRequest0 ''GET'' ''http://h/a'' None) detailsApiKeyUser
     = SetBasicAuth (newRequest0 ''GET'' ''http://h/a'' None) ''admin'' ''key''"
    using t[THEN conjunct1] by (simp add: detailsApiKeyUser_def)
  have s: "schemes (Header (setAuthentication (newRequest0 ''GET'' ''http://h/a'' None) detailsApiKeyUser)) = 1"
    using t[THEN conjunct2, rule_format, OF f, THEN conjunct1] by (simp add: detailsApiKeyUser_def)
  have b: "hasBasic (Header (setAuthentication (newRequest0 ''GET'' ''http://h/a'' None) detailsApiKeyUser))"
    using t[THEN conjunct2, rule_format, OF f, THEN conjunct2, THEN conjunct1]
    by (simp add: detailsApiKeyUser_def)
  show ?thesis using e s b g by simp
qed

section \<open>Properties of checksum verification\<close>

lemma hextable_digits:
  "list_all (\<lambda>n. (of_char (hextable ! n) :: nat) = (if n < 10 then 48 + n else 87 + n)) [0..<16]"
  by code_simp

lemma hextable_digit:
  "n < 16 \<Longrightarrow> (of_char (hextable ! n) :: nat) = (if n < 10 then 48 + n else 87 + n)"
  using hextable_digits unfolding list_all_iff by simp

lemma hexEncode_length: "length (hexEncode bs) = 2 * length bs"
  by (induction bs) simp_all

lemma hexEncode_nth:
  "i < length bs \<Longrightarrow>
     hexEncode bs ! (2 * i) = hextable ! ((of_char (bs ! i) :: nat) div 16)
   \<and> hexEncode bs ! (2 * i + 1) = hextable ! ((of_char (bs ! i) :: nat) mod 16)"
proof (induction bs arbitrary: i)
  case Nil
  then show ?case by simp
next
  case (Cons b bs)
  show ?case
  proof (cases i)
    case 0
    then show ?thesis by simp
  next
    case (Suc j)
    then have "j < length bs" using Cons.prems by simp
    from Cons.IH[OF this] show ?thesis using Suc by simp
  qed
qed

lemma of_char_div16: "(of_char (c :: char) :: nat) div 16 < 16"
  by (rule less_mult_imp_div_less) simp

lemma sublist_mid: "sublist x (a @ x @ b)"
  by (auto simp add: sublist_def)

lemma sublist_end: "sublist x (a @ x)"
  using sublist_mid[of x a "[]"] by simp

lemma all_lower_hex:
  "c \<in> set (hexEncode bs) \<Longrightarrow> c \<in> set hextable"
proof (induction bs)
  case Nil
  then show ?case by simp
next
  case (Cons b bs)
  have "hextable ! ((of_char b :: nat) div 16) \<in> set hextable"
    using of_char_div16[of b] by (intro nth_mem) (simp add: hextable_def)
  moreover have "hextable ! ((of_char b :: nat) mod 16) \<in> set hextable"
    by (intro nth_mem) (simp add: hextable_def)
  ultimately show ?case using Cons by auto
qed

text \<open>
  Claim C9. \<^verbatim>\<open>validateChecksum\<close> compares the expected string with the hex encoding of
  the digest: when they are equal it returns no error; when they differ it returns an error
  whose message contains the file name, the expected string and the hex string. The hex
  string has two characters per byte, the high half first, each the digit \<open>0\<close> to \<open>9\<close>
  (codes 48 to 57) or the lower-case letter \<open>a\<close> to \<open>f\<close> (codes 97 to 102) of its value.
\<close>

theorem validateChecksum_result:
  "(hexEncode (hashSum H actualSha) = expectedSha \<longrightarrow> validateChecksum H expectedSha actualSha fileName = None)
   \<and> (hexEncode (hashSum H actualSha) \<noteq> expectedSha \<longrightarrow>
        (\<exists>msg. validateChecksum H expectedSha actualSha fileName = Some (Error msg)
           \<and> sublist fileName msg \<and> sublist expectedSha msg
           \<and> sublist (hexEncode (hashSum H actualSha)) msg))
   \<and> length (hexEncode (hashSum H actualSha)) = 2 * length (hashSum H actualSha)
   \<and> (\<forall>i<length (hashSum H actualSha).
        (of_char (hexEncode (hashSum H actualSha) ! (2 * i)) :: nat) =
          (let d = (of_char (hashSum H actualSha ! i) :: nat) div 16 in if d < 10 then 48 + d else 87 + d)
        \<and> (of_char (hexEncode (hashSum H actualSha) ! (2 * i + 1)) :: nat) =
          (let d = (of_char (hashSum H actualSha ! i) :: nat) mod 16 in if d < 10 then 48 + d else 87 + d))"
proof (intro conjI impI allI)
  assume "hexEncode (hashSum H actualSha) = expectedSha"
  then show "validateChecksum H expectedSha actualSha fileName = None"
    by (simp add: validateChecksum_def)
next
  assume ne: "hexEncode (hashSum H actualSha) \<noteq> expectedSha"
  let ?hex = "hexEncode (hashSum H actualSha)"
  let ?msg = "''checksum mismatch for  '' @ fileName @ '', expected: '' @ expectedSha @ '', actual: '' @ ?hex"
  have "validateChecksum H expectedSha actualSha fileName = Some (Error ?msg)"
    using ne by (simp add: validateChecksum_def CheckErrorf_def CheckError_def Let_def del: append.simps)
  moreover have "sublist fileName ?msg" by (rule sublist_mid)
  moreover have "sublist expectedSha ?msg"
    using sublist_mid[of expectedSha "''checksum mismatch for  '' @ fileName @ '', expected: ''" "'', actual: '' @ ?hex"]
    by (simp del: append.simps add: append_assoc)
  moreover have "sublist ?hex ?msg"
    using sublist_end[of ?hex "''checksum mismatch for  '' @ fileName @ '', expected: '' @ expectedSha @ '', actual: ''"]
    by (simp del: append.simps add: append_assoc)
  ultimately show "\<exists>msg. validateChecksum H expectedSha actualSha fileName = Some (Error msg)
           \<and> sublist fileName msg \<and> sublist expectedSha msg \<and> sublist ?hex msg"
    by blast
next
  show "length (hexEncode (hashSum H actualSha)) = 2 * length (hashSum H actualSha)"
    by (rule hexEncode_length)
next
  fix i assume i: "i < length (hashSum H actualSha)"
  show "(of_char (hexEncode (hashSum H actualSha) ! (2 * i)) :: nat) =
          (let d = (of_char (hashSum H actualSha ! i) :: nat) div 16 in if d < 10 then 48 + d else 87 + d)"
    using hexEncode_nth[OF i] hextable_digit[OF of_char_div16[of "hashSum H actualSha ! i"]]
    by (simp add: Let_def)
  have "(of_char (hashSum H actualSha ! i) :: nat) mod 16 < 16" by simp
  then show "(of_char (hexEncode (hashSum H actualSha) ! (2 * i + 1)) :: nat) =
          (let d = (of_char (hashSum H actualSha ! i) :: nat) mod 16 in if d < 10 then 48 + d else 87 + d)"
    using hexEncode_nth[OF i] hextable_digit[of "(of_char (hashSum H actualSha ! i) :: nat) mod 16"]
    by (simp add: Let_def)
qed

text \<open>
  A digest of the one byte \<open>0x4a\<close>: the expected string \<open>4a\<close> passes, and \<open>4A\<close> gives an
  error that names the file and both strings.
\<close>

theorem validateChecksum_result_witness:
  "validateChecksum toyDigests ''4a'' (SHA1, ''hello'') ''f.bin'' = None
   \<and> (\<exists>msg. validateChecksum toyDigests ''4A'' (SHA1, ''hello'') ''f.bin'' = Some (Error msg)
         \<and> sublist ''f.bin'' msg \<and> sublist ''4A'' msg \<and> sublist ''4a'' msg)
   \<and> hexEncode (hashSum toyDigests (SHA1, ''hello'')) = ''4a''"
proof -
  have h: "hexEncode (hashSum toyDigests (SHA1, ''hello'')) = ''4a''"
    by (simp add: hashSum_def toyDigests_def hextable_def)
  have "validateChecksum toyDigests ''4a'' (SHA1, ''hello'') ''f.bin'' = None"
    using validateChecksum_result[of toyDigests "(SHA1, ''hello'')" "''4a''" "''f.bin''"] h by simp
  moreover have "\<exists>msg. validateChecksum toyDigests ''4A'' (SHA1, ''hello'') ''f.bin'' = Some (Error msg)
         \<and> sublist ''f.bin'' msg \<and> sublist ''4A'' msg \<and> sublist ''4a'' msg"
    using validateChecksum_result[of toyDigests "(SHA1, ''hello'')" "''4A''" "''f.bin''"] h by simp
  ultimately show ?thesis using h by simp
qed

lemma handleExpectedSha_sha1:
  "expectedSha1 \<noteq> '''' \<Longrightarrow> handleExpectedSha expectedSha1 expectedSha256 = (expectedSha1, Some (SHA1, ''''))"
  by (simp add: handleExpectedSha_def)

text \<open>
  Claim C7. When an expected SHA-1 is supplied, \<^verbatim>\<open>handleExpectedSha\<close> selects it and a
  SHA-1 hash whatever the expected SHA-256 is. So the result of \<^verbatim>\<open>saveToFile\<close> and of
  \<^verbatim>\<open>mergeChunks\<close> does not depend on the expected SHA-256, and when the bytes were
  written without an error and checksums are not skipped, the result is the comparison of
  the expected SHA-1 with the SHA-1 of the bytes written.
\<close>

theorem sha1_takes_precedence:
  "(expectedSha1 \<noteq> '''' \<longrightarrow>
      handleExpectedSha expectedSha1 expectedSha256 = (expectedSha1, Some (SHA1, ''''))
      \<and> hashSum H (hashWrite (SHA1, '''') written) = sha1 H written)
   \<and> (ExpectedSha1' d \<noteq> '''' \<longrightarrow>
      saveToFile H (d\<lparr>ExpectedSha256' := other\<rparr>) resp io = saveToFile H d resp io
      \<and> (CreateFilePath io = Inr p \<and> Create io = None \<and> copyErr resp (WriteErr io) = None
           \<and> CloseOut io = None \<and> \<not> SkipChecksum' d \<longrightarrow>
         saveToFile H d resp io =
           Return (validateChecksum H (ExpectedSha1' d) (SHA1, RespBody resp) (LocalFileName' d))))
   \<and> (ExpectedSha1 flags \<noteq> '''' \<longrightarrow>
      mergeChunks H (flags\<lparr>ExpectedSha256 := other\<rparr>) mio = mergeChunks H flags mio
      \<and> (OpenDest mio = None \<and> CloseDest mio = None \<and> \<not> SkipChecksum flags
           \<and> mergeLoop (SplitCount flags) (Chunks mio) 0 '''' = Return (None, merged) \<longrightarrow>
         mergeChunks H flags mio =
           Return (validateChecksum H (ExpectedSha1 flags) (SHA1, merged) (LocalFileName flags))))"
proof (intro conjI impI)
  assume "expectedSha1 \<noteq> ''''"
  then show "handleExpectedSha expectedSha1 expectedSha256 = (expectedSha1, Some (SHA1, ''''))"
    by (rule handleExpectedSha_sha1)
  show "hashSum H (hashWrite (SHA1, '''') written) = sha1 H written"
    by (simp add: hashSum_def hashWrite_def)
next
  assume a: "ExpectedSha1' d \<noteq> ''''"
  show "saveToFile H (d\<lparr>ExpectedSha256' := other\<rparr>) resp io = saveToFile H d resp io"
    using a by (auto simp add: saveToFile_def handleExpectedSha_sha1 split: sum.splits)
  assume "CreateFilePath io = Inr p \<and> Create io = None \<and> copyErr resp (WriteErr io) = None
           \<and> CloseOut io = None \<and> \<not> SkipChecksum' d"
  then show "saveToFile H d resp io =
           Return (validateChecksum H (ExpectedSha1' d) (SHA1, RespBody resp) (LocalFileName' d))"
    using a by (simp add: saveToFile_def handleExpectedSha_sha1 CheckError_def Join_def hashWrite_def
        split: option.splits)
next
  assume a: "ExpectedSha1 flags \<noteq> ''''"
  show "mergeChunks H (flags\<lparr>ExpectedSha256 := other\<rparr>) mio = mergeChunks H flags mio"
    using a by (auto simp add: mergeChunks_def handleExpectedSha_sha1 split: outcome.splits option.splits)
  assume "OpenDest mio = None \<and> CloseDest mio = None \<and> \<not> SkipChecksum flags
           \<and> mergeLoop (SplitCount flags) (Chunks mio) 0 '''' = Return (None, merged)"
  then show "mergeChunks H flags mio =
           Return (validateChecksum H (ExpectedSha1 flags) (SHA1, merged) (LocalFileName flags))"
    using a by (simp add: mergeChunks_def handleExpectedSha_sha1 CheckError_def Join_def hashWrite_def
        split: option.splits)
qed

text \<open>
  A download with a matching expected SHA-1 and a SHA-256 that does not match anything:
  it succeeds, with that SHA-256 and with another one.
\<close>

theorem sha1_takes_precedence_witness:
  "handleExpectedSha ''4a'' ''ffff'' = (''4a'', Some (SHA1, ''''))
   \<and> saveToFile toyDigests detailsBothShas ok200 saveFine = Return None
   \<and> saveToFile toyDigests (detailsBothShas\<lparr>ExpectedSha256' := ''4b''\<rparr>) ok200 saveFine = Return None"
proof -
  note t = sha1_takes_precedence[of "''4a''" "''ffff''" toyDigests "''''" detailsBothShas "''4b''" ok200 saveFine "''out/f.bin''"]
  have a: "(''4a'' :: string) \<noteq> ''''" "ExpectedSha1' detailsBothShas \<noteq> ''''"
    by (simp_all add: detailsBothShas_def)
  have b: "CreateFilePath saveFine = Inr ''out/f.bin'' \<and> Create saveFine = None
      \<and> copyErr ok200 (WriteErr saveFine) = None \<and> CloseOut saveFine = None \<and> \<not> SkipChecksum' detailsBothShas"
    by (simp add: saveFine_def copyErr_def ok200_def detailsBothShas_def)
  have v: "validateChecksum toyDigests (ExpectedSha1' detailsBothShas) (SHA1, RespBody ok200)
      (LocalFileName' detailsBothShas) = None"
    by (simp add: validateChecksum_def hashSum_def toyDigests_def hextable_def detailsBothShas_def)
  have 1: "handleExpectedSha ''4a'' ''ffff'' = (''4a'', Some (SHA1, ''''))"
    using t[THEN conjunct1] a by blast
  have 2: "saveToFile toyDigests detailsBothShas ok200 saveFine = Return None"
    using t[THEN conjunct2, THEN conjunct1, rule_format, OF a(2), THEN conjunct2, rule_format, OF b] v by simp
  have 3: "saveToFile toyDigests (detailsBothShas\<lparr>ExpectedSha256' := ''4b''\<rparr>) ok200 saveFine = Return None"
    using t[THEN conjunct2, THEN conjunct1, rule_format, OF a(2), THEN conjunct1] 2 by simp
  show ?thesis using 1 2 3 by simp
qed

section \<open>Properties of Send and of the remote file details\<close>

lemma canon_ContentLength: "CanonicalMIMEHeaderKey ''Content-Length'' = ''Content-Length''"
  by (simp add: canon_simps)

lemma headerGet_absent:
  "h (CanonicalMIMEHeaderKey key) = None \<Longrightarrow> headerGet h key = ''''"
  by (simp add: headerGet_def)

text \<open>
  Claim C10. When the HEAD request succeeds with a response of status 200 that has no
  \<^verbatim>\<open>Content-Length\<close> header, or an empty one, \<^verbatim>\<open>GetRemoteFileDetails\<close> returns no
  error, the response, and file details with size 0 whose MD5, SHA-1 and SHA-256 are the
  values of the headers \<^verbatim>\<open>X-Checksum-Md5\<close>, \<^verbatim>\<open>X-Checksum-Sha1\<close> and
  \<^verbatim>\<open>X-Checksum-Sha256\<close> of the response, empty where a header is absent.
\<close>

theorem GetRemoteFileDetails_without_length:
  assumes "SendHead depth E jc downloadUrl d '''' w = Some ((Some r, body, redirectUrl, None), w')"
      and "StatusCode r = 200"
      and "RespHeader r ''Content-Length'' = None \<or> headerGet (RespHeader r) ''Content-Length'' = ''''"
  shows "GetRemoteFileDetails depth E jc downloadUrl d w =
           Some (Return (Some \<lparr>Md5 = headerGet (RespHeader r) ''X-Checksum-Md5'',
                               Sha1 = headerGet (RespHeader r) ''X-Checksum-Sha1'',
                               Sha256 = headerGet (RespHeader r) ''X-Checksum-Sha256'',
                               Size = 0\<rparr>, Some r, None), w')"
proof -
  have "headerGet (RespHeader r) ''Content-Length'' = ''''"
    using assms(3) headerGet_absent[of "RespHeader r" "''Content-Length''"]
    by (auto simp add: canon_ContentLength)
  then show ?thesis
    using assms(1,2)
    by (simp add: GetRemoteFileDetails_def CheckResponseStatusWithBody_def StatusOK_def)
qed

lemmas send_simps = Execute_def sendHandler_def createReq_def newRequest_def doRequest_def
  compose_def afterDo_def shouldRetry_def StatusTooManyRequests_def CheckError_def Join_def
  setAuthentication_def addUserAgentHeader_def copyHeaders_def addUberTraceIdHeaderIfSet_def
  newRequest0_def

lemma SendHead_example:
  "SendHead 1 env0 (serving (\<lambda>req. headNoLength) 3) ''http://h/f'' plainDetails '''' [] =
     Some ((Some headNoLength, Some '''', '''', None),
           [\<lparr>Method = ''HEAD'', URL = ''http://h/f'', ReqBody = None,
             Header = [''User-Agent'' \<mapsto> [''jfrog-client-go/1.0'']], Close = True, ContentLength = 0\<rparr>])"
  by (simp add: SendHead_def send_simps env0_def serving_def plainDetails_def headNoLength_def
      headerSet_def canon_simps eval_nat_numeral)

text \<open>
  A server that answers HEAD with 200, an MD5 and a SHA-1 and nothing else: size 0, both
  checksums, an empty SHA-256, after one request.
\<close>

theorem GetRemoteFileDetails_without_length_witness:
  "GetRemoteFileDetails 1 env0 (serving (\<lambda>req. headNoLength) 3) ''http://h/f'' plainDetails [] =
     Some (Return (Some \<lparr>Md5 = ''0f'', Sha1 = ''4a'', Sha256 = '''', Size = 0\<rparr>, Some headNoLength, None),
           [\<lparr>Method = ''HEAD'', URL = ''http://h/f'', ReqBody = None,
             Header = [''User-Agent'' \<mapsto> [''jfrog-client-go/1.0'']], Close = True, ContentLength = 0\<rparr>])"
proof -
  have s: "StatusCode headNoLength = 200" by (simp add: headNoLength_def)
  have c: "RespHeader headNoLength ''Content-Length'' = None
      \<or> headerGet (RespHeader headNoLength) ''Content-Length'' = ''''"
    by (simp add: headNoLength_def)
  have g: "headerGet (RespHeader headNoLength) ''X-Checksum-Md5'' = ''0f''"
    "headerGet (RespHeader headNoLength) ''X-Checksum-Sha1'' = ''4a''"
    "headerGet (RespHeader headNoLength) ''X-Checksum-Sha256'' = ''''"
    by (simp_all add: headNoLength_def headerGet_def canon_simps)
  show ?thesis
    using GetRemoteFileDetails_without_length[OF SendHead_example s c] g by simp
qed

subsection \<open>The retry executor\<close>

lemma retryLoop_final:
  "handler st = Some ((False, err), st') \<Longrightarrow>
   retryLoop (Suc k) handler cancelled errorMessage lastErr st = Some (err, st')"
  by simp

lemma Execute_final:
  "0 \<le> maxRetries \<Longrightarrow> handler st = Some ((False, err), st') \<Longrightarrow>
   Execute maxRetries errorMessage cancelled handler st = Some (err, st')"
  by (simp add: Execute_def)

lemma retryLoop_always_error:
  assumes "\<forall>st. \<exists>b e w'. handler st = Some ((b, Some e), (V, w'))"
  shows "\<exists>e w'. retryLoop (Suc k) handler cancelled errorMessage lastErr st = Some (Some e, (V, w'))"
proof (induction k arbitrary: st lastErr)
  case 0
  obtain b e w' where h: "handler st = Some ((b, Some e), (V, w'))" using assms by blast
  then show ?case by (cases b) (simp_all add: exhausted_def)
next
  case (Suc k)
  obtain b e w' where h: "handler st = Some ((b, Some e), (V, w'))" using assms by blast
  show ?case
  proof (cases "b \<and> \<not> cancelled (V, w')")
    case True
    then have "retryLoop (Suc (Suc k)) handler cancelled errorMessage lastErr st =
        retryLoop (Suc k) handler cancelled errorMessage (Some e) (V, w')"
      using h by simp
    then show ?thesis using Suc.IH[of "Some e" "(V, w')"] by simp
  next
    case False
    then show ?thesis using h by auto
  qed
qed

lemma Execute_always_error:
  assumes "0 \<le> maxRetries" "\<forall>st. \<exists>b e w'. handler st = Some ((b, Some e), (V, w'))"
  shows "\<exists>e w'. Execute maxRetries errorMessage cancelled handler st = Some (Some e, (V, w'))"
proof -
  have "(if maxRetries < 0 then 0 else nat maxRetries + 1) = Suc (nat maxRetries)"
    using assms(1) by simp
  then show ?thesis
    unfolding Execute_def using retryLoop_always_error[OF assms(2)] by simp
qed

subsection \<open>Composition of the request\<close>

lemma copyHeaders_fields:
  "Method (copyHeaders d req) = Method req" "URL (copyHeaders d req) = URL req"
  "ReqBody (copyHeaders d req) = ReqBody req"
proof -
  have "Method (fold (\<lambda>(name, v) r. r\<lparr>Header := headerSet (Header r) name v\<rparr>) hs req) = Method req
      \<and> URL (fold (\<lambda>(name, v) r. r\<lparr>Header := headerSet (Header r) name v\<rparr>) hs req) = URL req
      \<and> ReqBody (fold (\<lambda>(name, v) r. r\<lparr>Header := headerSet (Header r) name v\<rparr>) hs req) = ReqBody req" for hs
    by (induction hs arbitrary: req) (auto split: prod.splits)
  then show "Method (copyHeaders d req) = Method req" "URL (copyHeaders d req) = URL req"
    "ReqBody (copyHeaders d req) = ReqBody req"
    by (simp_all add: copyHeaders_def split: option.splits)
qed

lemma setAuthentication_fields:
  "Method (setAuthentication req d) = Method req" "URL (setAuthentication req d) = URL req"
  "ReqBody (setAuthentication req d) = ReqBody req"
  by (simp_all add: setAuthentication_def SetBasicAuth_def)

lemma compose_fields:
  "Method (compose E req d) = Method req" "URL (compose E req d) = URL req"
  "ReqBody (compose E req d) = ReqBody req"
  by (simp_all add: compose_def addUberTraceIdHeaderIfSet_def copyHeaders_fields
      addUserAgentHeader_def setAuthentication_fields)

lemma doCapture_redirect:
  assumes "RoundTrip jc req w = (Inr r1, w1)"
      and "isRedirect r1" "headerGet (RespHeader r1) ''Location'' = loc" "loc \<noteq> ''''"
      and "ResolveLocation E (URL req) loc = Some B"
  shows "doCapture E jc req w =
           ((RedirectBlocked r1 (urlError E (urlErrorOp (Method req)) B (Error ''redirect'')), B), w1)"
  using assms by (simp add: doCapture_def)

lemma doCapture_plain:
  assumes "RoundTrip jc req w = (Inr r2, w2)" "\<not> isRedirect r2"
  shows "doCapture E jc req w = ((Responded r2, ''''), w2)"
  using assms by (simp add: doCapture_def)

lemma shouldRetry_final:
  "StatusCode r < 500 \<Longrightarrow> StatusCode r \<noteq> 429 \<Longrightarrow> shouldRetry r d w = (False, w)"
  by (simp add: shouldRetry_def StatusTooManyRequests_def)

lemma Send_final_response:
  assumes nr: "NewRequestErr E ''POST'' B = None"
      and r0: "0 \<le> retries jc"
      and second: "RoundTrip jc (compose E (newRequest0 ''POST'' B content) d) w1 = (Inr r2, w2)"
      and final: "\<not> isRedirect r2" "StatusCode r2 < 500" "StatusCode r2 \<noteq> 429" "CloseErr r2 = None"
  shows "Send (Suc n) E jc ''POST'' B content True True d logMsgPrefix w1 =
           Some ((Some r2, Some (RespBody r2), '''', None), w2)"
proof -
  let ?req = "newRequest0 ''POST'' B content"
  have cr: "createReq E ''POST'' B content = (Some ?req, None)"
    using nr by (simp add: createReq_def newRequest_def CheckError_def split: option.splits)
  have m: "Method (compose E ?req d) = ''POST''"
    by (simp add: compose_fields newRequest0_def)
  have dr: "doRequest E SP jc ?req content True True d w1 =
      Some ((Some r2, Some (RespBody r2), '''', None), w2)" for SP
    using doCapture_plain[OF second final(1), of E] m final(4)
    by (simp add: doRequest_def afterDo_def Join_def CheckError_def)
  have h: "sendHandler E SP jc ''POST'' B content True True d logMsgPrefix ((None, None, ''''), w1) =
      Some ((False, None), ((Some r2, Some (RespBody r2), ''''), w2))" for SP
    using cr dr[of SP] shouldRetry_final[OF final(2,3), of d w2] by (simp add: sendHandler_def)
  have "Execute (retries jc) msg canc
      (sendHandler E SP jc ''POST'' B content True True d logMsgPrefix) ((None, None, ''''), w1) =
      Some (None, ((Some r2, Some (RespBody r2), ''''), w2))" for msg canc SP
    by (rule Execute_final[OF r0]) (rule h)
  then show ?thesis by simp
qed

text \<open>
  Claim C6, as amended. Let the target \<open>A\<close> of a POST answer with status 302 and a
  \<^verbatim>\<open>Location\<close> that resolves to \<open>B\<close>, and let the client allow at least one attempt.
  With \<open>followRedirect\<close> set, if \<open>B\<close> answers the POST with the same body by a response
  that is final (no redirect, status below 500 and not 429, closed without error), then
  \<^verbatim>\<open>Send\<close> returns that response, its body, an empty redirect URL and no error, after
  exactly these two exchanges. With \<open>followRedirect\<close> not set, \<^verbatim>\<open>Send\<close> returns the
  302 response, a nil body, the redirect URL \<open>B\<close>, and an error that is not nil.
\<close>

theorem post_redirect:
  assumes nr: "NewRequestErr E ''POST'' A = None"
      and r0: "0 \<le> retries jc"
      and redirect: "StatusCode r1 = 302" "headerGet (RespHeader r1) ''Location'' = loc" "loc \<noteq> ''''"
        "ResolveLocation E A loc = Some B" "B \<noteq> ''''"
  shows "(RoundTrip jc (compose E (newRequest0 ''POST'' A content) d) w = (Inr r1, w1)
          \<and> NewRequestErr E ''POST'' B = None
          \<and> RoundTrip jc (compose E (newRequest0 ''POST'' B content) d) w1 = (Inr r2, w2)
          \<and> \<not> isRedirect r2 \<and> StatusCode r2 < 500 \<and> StatusCode r2 \<noteq> 429 \<and> CloseErr r2 = None
          \<longrightarrow> Send (Suc (Suc n)) E jc ''POST'' A content True closeBody d logMsgPrefix w =
                Some ((Some r2, Some (RespBody r2), '''', None), w2))
       \<and> ((\<forall>v. \<exists>v'. RoundTrip jc (compose E (newRequest0 ''POST'' A content) d) v = (Inr r1, v'))
          \<longrightarrow> (\<exists>e w'. Send (Suc n) E jc ''POST'' A content False closeBody d logMsgPrefix w =
                Some ((Some r1, None, B, Some e), w')))"
proof (intro conjI impI)
  let ?req = "newRequest0 ''POST'' A content"
  have cr: "createReq E ''POST'' A content = (Some ?req, None)"
    using nr by (simp add: createReq_def newRequest_def CheckError_def split: option.splits)
  have m: "Method (compose E ?req d) = ''POST''" and u: "URL (compose E ?req d) = A"
    by (simp_all add: compose_fields newRequest0_def)
  have red: "isRedirect r1" using redirect(1) by (simp add: isRedirect_def)
  {
    assume a: "RoundTrip jc (compose E ?req d) w = (Inr r1, w1)
          \<and> NewRequestErr E ''POST'' B = None
          \<and> RoundTrip jc (compose E (newRequest0 ''POST'' B content) d) w1 = (Inr r2, w2)
          \<and> \<not> isRedirect r2 \<and> StatusCode r2 < 500 \<and> StatusCode r2 \<noteq> 429 \<and> CloseErr r2 = None"
    then have first: "RoundTrip jc (compose E ?req d) w = (Inr r1, w1)" by simp
    have inner: "Send (Suc n) E jc ''POST'' B content True True d '''' w1 =
        Some ((Some r2, Some (RespBody r2), '''', None), w2)"
      using a by (intro Send_final_response[OF _ r0]) simp_all
    have dc: "doCapture E jc (compose E ?req d) w =
        ((RedirectBlocked r1 (urlError E (urlErrorOp ''POST'') B (Error ''redirect'')), B), w1)"
      using doCapture_redirect[OF first red redirect(2,3), of E B] redirect(4) u m by simp
    have dr: "doRequest E (\<lambda>u c d. Send (Suc n) E jc ''POST'' u c True True d '''') jc ?req content True closeBody d w =
        Some ((Some r2, Some (RespBody r2), '''', None), w2)"
      using dc m inner redirect(5) by (simp add: doRequest_def)
    have sr: "shouldRetry r2 d w2 = (False, w2)"
      using a by (intro shouldRetry_final) simp_all
    have h: "sendHandler E (\<lambda>u c d. Send (Suc n) E jc ''POST'' u c True True d '''') jc ''POST'' A content True
        closeBody d logMsgPrefix ((None, None, ''''), w) =
        Some ((False, None), ((Some r2, Some (RespBody r2), ''''), w2))"
      using cr dr sr by (simp add: sendHandler_def)
    have "Execute (retries jc) msg canc
        (sendHandler E (\<lambda>u c d. Send (Suc n) E jc ''POST'' u c True True d '''') jc ''POST'' A content True
          closeBody d logMsgPrefix) ((None, None, ''''), w) =
        Some (None, ((Some r2, Some (RespBody r2), ''''), w2))" for msg canc
      by (rule Execute_final[OF r0]) (rule h)
    then show "Send (Suc (Suc n)) E jc ''POST'' A content True closeBody d logMsgPrefix w =
        Some ((Some r2, Some (RespBody r2), '''', None), w2)"
      by simp
  }
  {
    assume always: "\<forall>v. \<exists>v'. RoundTrip jc (compose E ?req d) v = (Inr r1, v')"
    let ?SP = "\<lambda>u c d. Send n E jc ''POST'' u c True True d ''''"
    let ?h = "sendHandler E ?SP jc ''POST'' A content False closeBody d logMsgPrefix"
    have step: "\<exists>b e w'. ?h st = Some ((b, Some e), ((Some r1, None, B), w'))" for st
    proof -
      obtain vars v where st: "st = (vars, v)" by (cases st)
      obtain v' where rt: "RoundTrip jc (compose E ?req d) v = (Inr r1, v')" using always by blast
      let ?e = "urlError E (urlErrorOp ''POST'') B (Error ''redirect'')"
      have dc: "doCapture E jc (compose E ?req d) v = ((RedirectBlocked r1 ?e, B), v')"
        using doCapture_redirect[OF rt red redirect(2,3), of E B] redirect(4) u m by simp
      have dr: "doRequest E ?SP jc ?req content False closeBody d v = Some ((Some r1, None, B, Some ?e), v')"
        using dc redirect(5) by (simp add: doRequest_def)
      show ?thesis
        using cr dr st by (cases "sublist ''unsupported protocol scheme'' (message ?e)")
          (auto simp add: sendHandler_def)
    qed
    then have "\<forall>st. \<exists>b e w'. ?h st = Some ((b, Some e), ((Some r1, None, B), w'))" by blast
    from Execute_always_error[OF r0 this]
    obtain e w' where "Execute (retries jc) (''Failure occurred while sending '' @ ''POST'' @ '' request to '' @ A)
        (\<lambda>st. ctxCancelled jc (snd st)) ?h ((None, None, ''''), w) = Some (Some e, ((Some r1, None, B), w'))"
      by blast
    then show "\<exists>e w'. Send (Suc n) E jc ''POST'' A content False closeBody d logMsgPrefix w =
        Some ((Some r1, None, B, Some e), w')"
      by simp
  }
qed

lemmas example_simps = send_simps env0_def serving_def plainDetails_def headerSet_def canon_simps
  eval_nat_numeral doCapture_def isRedirect_def found302_def ok200_def redirecting_def headerGet_def
  urlError_def urlErrorOp_def exhausted_def

lemma redirect_error_scheme:
  "\<not> sublist ''unsupported protocol scheme''
       (''Post '' @ [CHR 0x22] @ ''http://b/y'' @ [CHR 0x22] @ '': redirect'')"
  by code_simp

lemma Send_blocked_example:
  "Send 1 env0 (serving redirecting 0) ''POST'' ''http://a/x'' (Some ''data'') False True plainDetails '''' [] =
     Some ((Some found302, None, ''http://b/y'',
            exhausted ''Failure occurred while sending POST request to http://a/x''
              (Some (urlError env0 ''Post'' ''http://b/y'' (Error ''redirect'')))),
           [compose env0 (newRequest0 ''POST'' ''http://a/x'' (Some ''data'')) plainDetails])"
  using redirect_error_scheme by (simp add: example_simps)

text \<open>
  Claim C6 as stated fails: with \<open>followRedirect\<close> not set, the call on this server does
  not return a nil error together with the nil body and the redirect URL.
\<close>

theorem post_redirect_blocked_counterexample:
  "\<not> (\<exists>resp w'. Send 1 env0 (serving redirecting 0) ''POST'' ''http://a/x'' (Some ''data'') False True
          plainDetails '''' [] = Some ((resp, None, ''http://b/y'', None), w'))"
  unfolding Send_blocked_example by (simp add: exhausted_def)

text \<open>
  A server that answers \<open>http://a/x\<close> with 302 to \<open>http://b/y\<close> and everything else
  with 200: the redirect followed, with the two requests sent, and the redirect blocked.
\<close>

theorem post_redirect_witness:
  "Send 2 env0 (serving redirecting 2) ''POST'' ''http://a/x'' (Some ''data'') True False plainDetails '''' [] =
     Some ((Some ok200, Some ''hello'', '''', None),
           [compose env0 (newRequest0 ''POST'' ''http://a/x'' (Some ''data'')) plainDetails,
            compose env0 (newRequest0 ''POST'' ''http://b/y'' (Some ''data'')) plainDetails])
   \<and> (\<exists>e w'. Send 1 env0 (serving redirecting 2) ''POST'' ''http://a/x'' (Some ''data'') False False
          plainDetails '''' [] = Some ((Some found302, None, ''http://b/y'', Some e), w'))"
proof -
  let ?jc = "serving redirecting 2"
  let ?qa = "compose env0 (newRequest0 ''POST'' ''http://a/x'' (Some ''data'')) plainDetails"
  let ?qb = "compose env0 (newRequest0 ''POST'' ''http://b/y'' (Some ''data'')) plainDetails"
  have nr: "NewRequestErr env0 ''POST'' ''http://a/x'' = None" by (simp add: env0_def)
  have r0: "0 \<le> retries ?jc" by (simp add: serving_def)
  have red: "StatusCode found302 = 302" "headerGet (RespHeader found302) ''Location'' = ''http://b/y''"
    "''http://b/y'' \<noteq> ''''" "ResolveLocation env0 ''http://a/x'' ''http://b/y'' = Some ''http://b/y''"
    "''http://b/y'' \<noteq> ''''"
    by (simp_all add: found302_def headerGet_def canon_simps env0_def)
  have ua: "URL ?qa = ''http://a/x''" "URL ?qb = ''http://b/y''"
    by (simp_all add: compose_fields newRequest0_def)
  have a: "RoundTrip ?jc ?qa [] = (Inr found302, [?qa])
      \<and> NewRequestErr env0 ''POST'' ''http://b/y'' = None
      \<and> RoundTrip ?jc ?qb [?qa] = (Inr ok200, [?qa, ?qb])
      \<and> \<not> isRedirect ok200 \<and> StatusCode ok200 < 500 \<and> StatusCode ok200 \<noteq> 429 \<and> CloseErr ok200 = None"
    using ua by (simp add: serving_def redirecting_def env0_def isRedirect_def ok200_def)
  have b: "\<forall>v. \<exists>v'. RoundTrip ?jc ?qa v = (Inr found302, v')"
    using ua by (simp add: serving_def redirecting_def)
  note t = post_redirect[OF nr r0 red, where content = "Some ''data''" and d = plainDetails and w = "[]"
      and ?w1.0 = "[?qa]" and ?r2.0 = ok200 and ?w2.0 = "[?qa, ?qb]" and n = 0 and closeBody = False
      and logMsgPrefix = "''''"]
  have 1: "Send 2 env0 ?jc ''POST'' ''http://a/x'' (Some ''data'') True False plainDetails '''' [] =
     Some ((Some ok200, Some ''hello'', '''', None), [?qa, ?qb])"
    using t[THEN conjunct1, THEN mp, OF a] by (simp add: ok200_def eval_nat_numeral)
  have 2: "\<exists>e w'. Send 1 env0 ?jc ''POST'' ''http://a/x'' (Some ''data'') False False
          plainDetails '''' [] = Some ((Some found302, None, ''http://b/y'', Some e), w')"
    using t[THEN conjunct2, THEN mp, OF b] by simp
  show ?thesis using 1 2 by blast
qed

text \<open>
  Claim C8 says that an upload is retried on a status of 500 or more only, so not on 429.
  On a server that answers every request with 429, with two retries allowed,
  \<^verbatim>\<open>UploadFile\<close> sends the PUT three times before it returns the error that carries
  the status line.
\<close>

theorem upload_retries_429:
  "UploadFile env0 (serving (\<lambda>req. tooMany429) 2) ''/tmp/f'' ''http://h/f'' '''' plainDetails [] =
     Some ((Some tooMany429, None,
            Some (Error ''Failure occurred while uploading to http://h/f: server response: 429 Too Many Requests'')),
           [uploadRequest env0 (newRequest0 ''PUT'' ''http://h/f'' (Some ''data'')) plainDetails 4,
            uploadRequest env0 (newRequest0 ''PUT'' ''http://h/f'' (Some ''data'')) plainDetails 4,
            uploadRequest env0 (newRequest0 ''PUT'' ''http://h/f'' (Some ''data'')) plainDetails 4])"
  by (simp add: UploadFile_def Execute_def uploadHandler_def doUploadFile_def UploadFileFromReader_def
      newRequest_def CheckError_def env0_def serving_def tooMany429_def CheckResponseStatus_def
      CheckResponseStatusWithBody_def GenerateResponseError_def StatusOK_def StatusCreated_def
      StatusAccepted_def Join_def exhausted_def eval_nat_numeral)

text \<open>
  Claim C5 says that after the trace-id token is set every request carries the header
  \<^verbatim>\<open>uber-trace-id\<close>. After \<^verbatim>\<open>SetUberTraceIdToken("abc")\<close> the PUT that \<^verbatim>\<open>UploadFile\<close>
  sends carries no such header, while the GET that \<^verbatim>\<open>Send\<close> sends carries it once,
  with the value \<^verbatim>\<open>abc:abc:0:0\<close>.
\<close>

theorem upload_without_trace_id:
  "(\<exists>res q. UploadFile (SetUberTraceIdToken ''abc'' env0) (serving (\<lambda>req. ok200) 0) ''/tmp/f'' ''http://h/f''
        '''' plainDetails [] = Some (res, [q])
      \<and> Method q = ''PUT'' \<and> Header q (CanonicalMIMEHeaderKey uberTraceIdHeader) = None
      \<and> headerGet (Header q) uberTraceIdHeader = '''')
   \<and> (\<exists>res q. Send 1 (SetUberTraceIdToken ''abc'' env0) (serving (\<lambda>req. ok200) 0) ''GET'' ''http://h/f'' None
        True True plainDetails '''' [] = Some (res, [q])
      \<and> Header q (CanonicalMIMEHeaderKey uberTraceIdHeader) = Some [''abc:abc:0:0''])"
  by (simp add: UploadFile_def Execute_def uploadHandler_def doUploadFile_def UploadFileFromReader_def
      newRequest_def CheckError_def env0_def serving_def ok200_def CheckResponseStatus_def
      CheckResponseStatusWithBody_def StatusOK_def StatusCreated_def StatusAccepted_def Join_def
      uploadRequest_def setRequestHeaders_def copyHeaders_def plainDetails_def setAuthentication_def
      addUserAgentHeader_def newRequest0_def headerSet_def headerGet_def canon_simps SetUberTraceIdToken_def
      uberTraceIdHeader_def send_simps eval_nat_numeral FormatInt_def)

section \<open>Further properties of the request headers and of the upload\<close>

subsection \<open>Headers of a request sent by Send\<close>

lemma headerSet_apply:
  "headerSet h name v key = (if key = CanonicalMIMEHeaderKey name then Some [v] else h key)"
  by (simp add: headerSet_def)

lemma fold_headerSet:
  fixes req :: request
  shows "Header (fold (\<lambda>(name, v) r. r\<lparr>Header := headerSet (Header r) name v\<rparr>) hs req) key =
     (case filter (\<lambda>(name, v). CanonicalMIMEHeaderKey name = key) hs of
        [] \<Rightarrow> Header req key
      | x # xs \<Rightarrow> Some [snd (last (x # xs))])"
proof -
  define step where "step = (\<lambda>(name :: string, v :: string) (r :: request). r\<lparr>Header := headerSet (Header r) name v\<rparr>)"
  define P where "P = (\<lambda>(name :: string, v :: string). CanonicalMIMEHeaderKey name = key)"
  have step_key: "Header (step (name, v) r) key = (if P (name, v) then Some [v] else Header r key)" for name v r
    by (auto simp add: step_def P_def headerSet_apply)
  have "Header (fold step hs req) key =
     (case filter P hs of [] \<Rightarrow> Header req key | x # xs \<Rightarrow> Some [snd (last (x # xs))])"
  proof (induction hs arbitrary: req)
    case Nil
    then show ?case by simp
  next
    case (Cons h hs)
    obtain name v where h: "h = (name, v)" by (cases h)
    have "Header (fold step (h # hs) req) key =
        (case filter P hs of [] \<Rightarrow> Header (step h req) key | x # xs \<Rightarrow> Some [snd (last (x # xs))])"
      using Cons.IH[of "step h req"] by simp
    also have "\<dots> = (case filter P (h # hs) of [] \<Rightarrow> Header req key | x # xs \<Rightarrow> Some [snd (last (x # xs))])"
      using step_key[of name v req] h by (cases "filter P hs") auto
    finally show ?case .
  qed
  then show ?thesis unfolding step_def P_def .
qed

lemma copyHeaders_header:
  "Header (copyHeaders d req) key =
     (case callerValue key (Headers d) of None \<Rightarrow> Header req key | Some v \<Rightarrow> Some [v])"
  by (cases "Headers d") (simp_all add: copyHeaders_def callerValue_def fold_headerSet split: list.splits)

lemma canon_UserAgent: "CanonicalMIMEHeaderKey ''User-Agent'' = ''User-Agent''"
  by (simp add: canon_simps)

lemma compose_headers:
  "Header (compose E req d) ''Uber-Trace-Id'' =
     (if uberTraceIdToken E \<noteq> '''' then Some [uberTraceIdToken E]
      else case callerValue ''Uber-Trace-Id'' (Headers d) of
             None \<Rightarrow> Header (setAuthentication (req\<lparr>Close := True\<rparr>) d) ''Uber-Trace-Id''
           | Some v \<Rightarrow> Some [v])"
  "Header (compose E req d) ''User-Agent'' =
     (case callerValue ''User-Agent'' (Headers d) of None \<Rightarrow> Some [GetUserAgent E] | Some v \<Rightarrow> Some [v])"
  by (simp_all add: compose_def addUberTraceIdHeaderIfSet_def uberTraceIdHeader_def headerSet_def
      canon_trace canon_UserAgent copyHeaders_header addUserAgentHeader_def split: option.splits)

lemma compose_after_SetUberTraceIdToken:
  "Header (compose (SetUberTraceIdToken T E) req d) (CanonicalMIMEHeaderKey uberTraceIdHeader) =
     Some [T @ '':'' @ T @ '':0:0'']"
  by (simp add: compose_headers(1) SetUberTraceIdToken_def uberTraceIdHeader_def canon_trace)

subsection \<open>The result of one upload request by its status\<close>

lemma UploadFileFromReader_status:
  assumes "NewRequestErr E ''PUT'' url = None"
      and "Do jc (uploadRequest E (newRequest0 ''PUT'' url (Some reader)) d sz) w = (Responded r, w1)"
  shows "StatusCode r \<in> {200, 201, 202} \<Longrightarrow> ReadErr r = None \<Longrightarrow> CloseErr r = None \<Longrightarrow>
           UploadFileFromReader E jc reader url d sz w = ((Some r, Some (RespBody r), None), w1)"
    and "StatusCode r \<notin> {200, 201, 202} \<Longrightarrow>
           \<exists>e. UploadFileFromReader E jc reader url d sz w = ((Some r, None, Some e), w1)
              \<and> sublist (Status r) (message e)"
proof -
  have nr: "newRequest E ''PUT'' url (Some reader) = (Some (newRequest0 ''PUT'' url (Some reader)), None)"
    using assms(1) by (simp add: newRequest_def CheckError_def)
  show "UploadFileFromReader E jc reader url d sz w = ((Some r, Some (RespBody r), None), w1)"
    if "StatusCode r \<in> {200, 201, 202}" "ReadErr r = None" "CloseErr r = None"
    using that nr assms(2)
    by (auto simp add: UploadFileFromReader_def CheckResponseStatus_def CheckResponseStatusWithBody_def
        StatusOK_def StatusCreated_def StatusAccepted_def Join_def CheckError_def)
  show "\<exists>e. UploadFileFromReader E jc reader url d sz w = ((Some r, None, Some e), w1)
              \<and> sublist (Status r) (message e)"
    if ns: "StatusCode r \<notin> {200, 201, 202}"
  proof -
    let ?e = "GenerateResponseError (Status r) (RespBody r)"
    have c: "CheckResponseStatus r [StatusCreated, StatusOK, StatusAccepted] = Some ?e"
      using ns by (simp add: CheckResponseStatus_def CheckResponseStatusWithBody_def
          StatusOK_def StatusCreated_def StatusAccepted_def CheckError_def)
    have s1: "sublist (Status r) (message ?e)"
      using sublist_mid[of "Status r" "''server response: ''"] by (simp add: GenerateResponseError_def)
    have u: "UploadFileFromReader E jc reader url d sz w =
        ((Some r, None, Join (Some ?e) (CheckError (CloseErr r))), w1)"
      using nr assms(2) c by (simp add: UploadFileFromReader_def)
    show ?thesis
    proof (cases "CloseErr r")
      case None
      then show ?thesis using u s1 by (simp add: Join_def CheckError_def)
    next
      case (Some ce)
      have "sublist (Status r) (message ?e @ [CHR 0x0A] @ message ce)"
        using s1 by (metis sublist_append)
      then show ?thesis using u Some by (simp add: Join_def CheckError_def)
    qed
  qed
qed

section \<open>Properties of the concurrent chunk download\<close>

subsection \<open>int64 arithmetic on the values that occur\<close>

lemma wrap64_id: "in_int64 x \<Longrightarrow> wrap64 x = x"
  by (simp add: wrap64_def in_int64_def)

lemma quo64_nonneg: "0 \<le> a \<Longrightarrow> 0 < b \<Longrightarrow> in_int64 a \<Longrightarrow> quo64 a b = a div b"
proof -
  assume a: "0 \<le> a" and b: "0 < b" and r: "in_int64 a"
  have "0 \<le> a div b" using a b by (simp add: pos_imp_zdiv_nonneg_iff)
  moreover have "a div b \<le> a" using zdiv_mono2[of a 1 b] a b by simp
  ultimately have "in_int64 (a div b)" using r by (simp add: in_int64_def)
  moreover have "sgn a * sgn b * (\<bar>a\<bar> div \<bar>b\<bar>) = a div b"
    using a b by (cases "a = 0") (simp_all add: sgn_if)
  ultimately show ?thesis by (simp add: quo64_def wrap64_id)
qed

lemma rem64_nonneg: "0 \<le> a \<Longrightarrow> 0 < b \<Longrightarrow> in_int64 a \<Longrightarrow> rem64 a b = a mod b"
proof -
  assume a: "0 \<le> a" and b: "0 < b" and r: "in_int64 a"
  have e: "sgn a * sgn b * (\<bar>a\<bar> div \<bar>b\<bar>) = a div b"
    using a b by (cases "a = 0") (simp_all add: sgn_if)
  have "a - b * (a div b) = a mod b" by (simp add: minus_mult_div_eq_mod)
  moreover have "0 \<le> a mod b" "a mod b \<le> a" using a b by (simp_all add: zmod_le_nonneg_dividend)
  then have "in_int64 (a mod b)" using r by (simp add: in_int64_def)
  ultimately show ?thesis by (simp add: rem64_def e wrap64_id)
qed

lemma mul_div_bound:
  fixes a b k :: int
  assumes "0 \<le> a" "0 < b" "0 \<le> k" "k \<le> b"
  shows "0 \<le> (a div b) * k \<and> (a div b) * k \<le> a"
proof -
  have q: "0 \<le> a div b" using assms by (simp add: pos_imp_zdiv_nonneg_iff)
  have "(a div b) * k \<le> (a div b) * b" using q assms by (simp add: mult_left_mono)
  also have "\<dots> \<le> a" using assms
    by (metis div_mult_mod_eq le_add_same_cancel1 pos_mod_sign)
  finally show ?thesis using q assms by simp
qed

lemma chunkStart_eq:
  assumes "0 \<le> a" "0 < b" "in_int64 a" "int i < b"
  shows "chunkStart (a div b) i = (a div b) * int i"
proof -
  have "0 \<le> (a div b) * int i \<and> (a div b) * int i \<le> a"
    using assms by (intro mul_div_bound) simp_all
  then have "in_int64 ((a div b) * int i)" using assms(3) by (simp add: in_int64_def)
  then show ?thesis by (simp add: chunkStart_def mul64_def wrap64_id)
qed

lemma chunkEnd_eq:
  assumes "0 \<le> a" "0 < b" "in_int64 a" "in_int64 b" "int i < b"
  shows "chunkEnd (a div b) (a mod b) b i =
           (a div b) * (int i + 1) + (if int i = b - 1 then a mod b else 0)"
proof -
  have i1: "in_int64 (int i + 1)" using assms by (simp add: in_int64_def)
  have bnd: "0 \<le> (a div b) * (int i + 1) \<and> (a div b) * (int i + 1) \<le> a"
    using assms by (intro mul_div_bound) simp_all
  then have r: "in_int64 ((a div b) * (int i + 1))" using assms(3) by (simp add: in_int64_def)
  have last: "(a div b) * b + a mod b = a" by simp
  have nb: "int (nat b) = b" using assms by simp
  show ?thesis
  proof (cases "int i = b - 1")
    case True
    then have "(a div b) * (int i + 1) + a mod b = a" using last by simp
    then have "in_int64 ((a div b) * (int i + 1) + a mod b)" using assms(3) by simp
    then show ?thesis using True i1 r
      by (simp add: chunkEnd_def Let_def add64_def mul64_def wrap64_id)
  next
    case False
    then show ?thesis using i1 r
      by (simp add: chunkEnd_def Let_def add64_def mul64_def wrap64_id)
  qed
qed

lemma union_prefix:
  fixes q :: int
  assumes "0 \<le> q"
  shows "(\<Union>i<k. {q * int i ..< q * (int i + 1)}) = {0 ..< q * int k}"
proof (induction k)
  case 0
  then show ?case by simp
next
  case (Suc k)
  have "{0 ..< q * int k} \<union> {q * int k ..< q * (int k + 1)} = {0 ..< q * (int k + 1)}"
    using assms by (intro ivl_disj_un_two) (simp_all add: mult_left_mono)
  then show ?case using Suc by (simp add: lessThan_Suc Un_commute algebra_simps)
qed

subsection \<open>The dispatch loop\<close>

lemma dispatchLoop_prefix:
  "started = map (chunkOf cs md n) [0..<i] \<Longrightarrow> int i \<le> n \<Longrightarrow>
   \<exists>k. i \<le> k \<and> int k \<le> n \<and> dispatchLoop cs md n worker seen i started = map (chunkOf cs md n) [0..<k]"
proof (induction cs md n worker seen i started rule: dispatchLoop.induct)
  case (1 cs md n worker seen i started)
  show ?case
  proof (cases "int i < n \<and> \<not> fastFail worker (seen i) started")
    case True
    have "started @ [(chunkStart cs i, chunkEnd cs md n i, i)] = map (chunkOf cs md n) [0..<i + 1]"
      using "1.prems"(1) by (simp add: chunkOf_def)
    moreover have "int (i + 1) \<le> n" using True by simp
    ultimately obtain k where "i + 1 \<le> k" "int k \<le> n"
      "dispatchLoop cs md n worker seen (i + 1) (started @ [(chunkStart cs i, chunkEnd cs md n i, i)])
         = map (chunkOf cs md n) [0..<k]"
      using "1.IH" True by blast
    moreover have "dispatchLoop cs md n worker seen i started =
        dispatchLoop cs md n worker seen (i + 1) (started @ [(chunkStart cs i, chunkEnd cs md n i, i)])"
      using True by (subst dispatchLoop.simps) simp
    ultimately show ?thesis
      by (intro exI[of _ k]) simp
  next
    case False
    then have "dispatchLoop cs md n worker seen i started = started"
      by (subst dispatchLoop.simps) auto
    then show ?thesis using "1.prems"
      by (intro exI[of _ i]) simp
  qed
qed

lemma dispatchLoop_all:
  "\<forall>c\<in>set (map (chunkOf cs md n) [0..<nat n]). \<not> failed (case c of (s, e, j) \<Rightarrow> worker s e j) \<Longrightarrow>
   started = map (chunkOf cs md n) [0..<i] \<Longrightarrow> int i \<le> n \<Longrightarrow>
   dispatchLoop cs md n worker seen i started = map (chunkOf cs md n) [0..<nat n]"
proof (induction cs md n worker seen i started rule: dispatchLoop.induct)
  case (1 cs md n worker seen i started)
  have "set started \<subseteq> set (map (chunkOf cs md n) [0..<nat n])"
    using "1.prems"(2,3) by auto
  then have nf: "\<not> fastFail worker (seen i) started"
    using "1.prems"(1) unfolding fastFail_def list_ex_iff by fastforce
  show ?case
  proof (cases "int i < n")
    case True
    have "started @ [(chunkStart cs i, chunkEnd cs md n i, i)] = map (chunkOf cs md n) [0..<i + 1]"
      using "1.prems"(2) by (simp add: chunkOf_def)
    moreover have "int (i + 1) \<le> n" using True by simp
    ultimately have "dispatchLoop cs md n worker seen (i + 1)
        (started @ [(chunkStart cs i, chunkEnd cs md n i, i)]) = map (chunkOf cs md n) [0..<nat n]"
      using "1.IH" True nf "1.prems"(1) by blast
    moreover have "dispatchLoop cs md n worker seen i started =
        dispatchLoop cs md n worker seen (i + 1) (started @ [(chunkStart cs i, chunkEnd cs md n i, i)])"
      using True nf by (subst dispatchLoop.simps) simp
    ultimately show ?thesis by simp
  next
    case False
    then have "i = nat n" using "1.prems"(3) by simp
    moreover have "dispatchLoop cs md n worker seen i started = started"
      using False by (subst dispatchLoop.simps) simp
    ultimately show ?thesis using "1.prems"(2) by simp
  qed
qed

lemma dispatchLoop_result:
  "started = map (chunkOf cs md n) [0..<i] \<Longrightarrow> int i \<le> n \<Longrightarrow>
   \<exists>k. int k \<le> n \<and> dispatchLoop cs md n worker seen i started = map (chunkOf cs md n) [0..<k]
       \<and> (k = nat n \<or> (\<exists>j<k. failed (workerAt cs md n worker j)))"
proof (induction cs md n worker seen i started rule: dispatchLoop.induct)
  case (1 cs md n worker seen i started)
  show ?case
  proof (cases "int i < n")
    case False
    then have "dispatchLoop cs md n worker seen i started = started"
      by (subst dispatchLoop.simps) simp
    moreover have "i = nat n" using False "1.prems"(2) by simp
    ultimately show ?thesis using "1.prems" by (intro exI[of _ i]) simp
  next
    case True
    show ?thesis
    proof (cases "fastFail worker (seen i) started")
      case ff: True
      then obtain s e j where m: "(s, e, j) \<in> set started" and f: "failed (worker s e j)"
        unfolding fastFail_def list_ex_iff by auto
      from m "1.prems"(1) have "j < i" "s = chunkStart cs j" "e = chunkEnd cs md n j"
        by (auto simp add: chunkOf_def)
      with f have "\<exists>j<i. failed (workerAt cs md n worker j)"
        by (auto simp add: workerAt_def)
      moreover have "dispatchLoop cs md n worker seen i started = started"
        using ff by (subst dispatchLoop.simps) simp
      ultimately show ?thesis using "1.prems" by (intro exI[of _ i]) simp
    next
      case nf: False
      have "started @ [(chunkStart cs i, chunkEnd cs md n i, i)] = map (chunkOf cs md n) [0..<i + 1]"
        using "1.prems"(1) by (simp add: chunkOf_def)
      moreover have "int (i + 1) \<le> n" using True by simp
      ultimately have "\<exists>k. int k \<le> n \<and>
          dispatchLoop cs md n worker seen (i + 1) (started @ [(chunkStart cs i, chunkEnd cs md n i, i)])
            = map (chunkOf cs md n) [0..<k]
          \<and> (k = nat n \<or> (\<exists>j<k. failed (workerAt cs md n worker j)))"
        using "1.IH" True nf by blast
      moreover have "dispatchLoop cs md n worker seen i started =
          dispatchLoop cs md n worker seen (i + 1) (started @ [(chunkStart cs i, chunkEnd cs md n i, i)])"
        using True nf by (subst dispatchLoop.simps) simp
      ultimately show ?thesis by simp
    qed
  qed
qed

lemma store_append:
  "store worker (cs @ [(s, e, i)]) slots = (store worker cs slots)[i := worker s e i]"
  by (induction worker cs slots rule: store.induct) simp_all

lemma store_prefix:
  "k \<le> m \<Longrightarrow>
   store worker (map (chunkOf cs md n) [0..<k]) (replicate m emptySlot) =
     map (workerAt cs md n worker) [0..<k] @ replicate (m - k) emptySlot"
proof (induction k)
  case 0
  then show ?case by simp
next
  case (Suc k)
  then have IH: "store worker (map (chunkOf cs md n) [0..<k]) (replicate m emptySlot) =
     map (workerAt cs md n worker) [0..<k] @ replicate (m - k) emptySlot" by simp
  have "m - k = Suc (m - Suc k)" using Suc.prems by simp
  then have r: "replicate (m - k) emptySlot = emptySlot # replicate (m - Suc k) emptySlot"
    by simp
  have "store worker (map (chunkOf cs md n) [0..<Suc k]) (replicate m emptySlot) =
      (store worker (map (chunkOf cs md n) [0..<k]) (replicate m emptySlot))[k := workerAt cs md n worker k]"
    by (simp add: chunkOf_def store_append workerAt_def)
  also have "\<dots> = map (workerAt cs md n worker) [0..<k] @ (workerAt cs md n worker k # replicate (m - Suc k) emptySlot)"
    by (simp add: IH r list_update_append)
  finally show ?case by simp
qed

lemma firstError_find:
  "firstError es = (case find (\<lambda>e. e \<noteq> None) es of None \<Rightarrow> None | Some e \<Rightarrow> e)"
  by (induction es rule: firstError.induct) simp_all

lemma firstError_None: "firstError es = None \<longleftrightarrow> (\<forall>e\<in>set es. e = None)"
  by (induction es rule: firstError.induct) simp_all

lemma scan_all_present:
  "\<forall>r\<in>set rs. r \<noteq> None \<Longrightarrow>
   scanResponses rs = (case find unexpected rs of Some (Some x) \<Rightarrow> Unexpected x | _ \<Rightarrow> AllPartial)"
  by (induction rs rule: scanResponses.induct) (simp_all add: unexpected_def)

lemma scan_append_unexpected:
  "\<forall>r\<in>set rs. r \<noteq> None \<Longrightarrow> \<exists>r\<in>set rs. unexpected r \<Longrightarrow>
   scanResponses (rs @ ns) = (case find unexpected rs of Some (Some x) \<Rightarrow> Unexpected x | _ \<Rightarrow> AllPartial)"
  by (induction rs rule: scanResponses.induct) (auto simp add: unexpected_def)

lemma find_append_none:
  "\<forall>r\<in>set ns. \<not> P r \<Longrightarrow> find P (rs @ ns) = find P rs"
  by (induction rs) (auto simp add: find_None_iff)

subsection \<open>The join\<close>

lemma slots_shape:
  assumes "1 \<le> SplitCount flags"
  shows "\<exists>k. k \<le> nat (SplitCount flags) \<and>
     slotsAfterWait flags worker seen =
       map (workerAt (quo64 (FileSize flags) (SplitCount flags)) (rem64 (FileSize flags) (SplitCount flags)) (SplitCount flags) worker) [0..<k]
         @ replicate (nat (SplitCount flags) - k) emptySlot \<and>
     (k = nat (SplitCount flags) \<or>
      (\<exists>j<k. failed (workerAt (quo64 (FileSize flags) (SplitCount flags)) (rem64 (FileSize flags) (SplitCount flags)) (SplitCount flags) worker j)))"
proof -
  let ?cs = "quo64 (FileSize flags) (SplitCount flags)"
  let ?md = "rem64 (FileSize flags) (SplitCount flags)"
  let ?n = "SplitCount flags"
  have "[] = map (chunkOf ?cs ?md ?n) [0..<0]" by simp
  moreover have "int 0 \<le> ?n" using assms by simp
  ultimately obtain k where k: "int k \<le> ?n"
      "dispatchLoop ?cs ?md ?n worker seen 0 [] = map (chunkOf ?cs ?md ?n) [0..<k]"
      "k = nat ?n \<or> (\<exists>j<k. failed (workerAt ?cs ?md ?n worker j))"
    using dispatchLoop_result[of "[]" ?cs ?md ?n 0 worker seen] by blast
  have kn: "k \<le> nat ?n" using k(1) by simp
  show ?thesis
    using k(2,3) kn store_prefix[OF kn, of worker ?cs ?md ?n]
    by (intro exI[of _ k]) (simp add: slotsAfterWait_def startedChunks_def)
qed

lemma join_shape:
  assumes present: "\<forall>s\<in>set ws. fst (snd s) \<noteq> None \<or> snd (snd s) \<noteq> None"
      and stop: "m = 0 \<or> (\<exists>s\<in>set ws. failed s)"
      and ne: "0 < length ws + m"
      and slots: "slots = ws @ replicate m emptySlot"
      and el: "errorsList = map (\<lambda>s. snd (snd s)) slots"
      and rl: "respList = map (\<lambda>s. fst (snd s)) slots"
  shows "joinChunks errorsList respList =
      (case find (\<lambda>e. e \<noteq> None) errorsList of
         Some e \<Rightarrow> Return (None, e)
       | None \<Rightarrow> (case find unexpected respList of
             Some r \<Rightarrow> Return (r, None)
           | None \<Rightarrow> Return (last respList, None)))"
    and "find (\<lambda>e. e \<noteq> None) errorsList = None \<Longrightarrow> find unexpected respList = None \<Longrightarrow>
         \<exists>x. last respList = Some x \<and> StatusCode x = StatusPartialContent"
proof -
  let ?rs = "map (\<lambda>s. fst (snd s)) ws"
  have rl': "respList = ?rs @ replicate m None"
    using slots rl by (simp add: emptySlot_def)
  have el': "errorsList = map (\<lambda>s. snd (snd s)) ws @ replicate m None"
    using slots el by (simp add: emptySlot_def)
  have fe: "firstError errorsList = (case find (\<lambda>e. e \<noteq> None) errorsList of None \<Rightarrow> None | Some e \<Rightarrow> e)"
    by (rule firstError_find)
  have noerr: "find (\<lambda>e. e \<noteq> None) errorsList = None \<Longrightarrow>
      (\<forall>r\<in>set ?rs. r \<noteq> None) \<and> (m = 0 \<or> (\<exists>r\<in>set ?rs. unexpected r))"
  proof -
    assume a: "find (\<lambda>e. e \<noteq> None) errorsList = None"
    then have z: "\<forall>s\<in>set ws. snd (snd s) = None"
      using el' by (auto simp add: find_None_iff)
    then have p: "\<forall>r\<in>set ?rs. r \<noteq> None" using present by auto
    have "m = 0 \<or> (\<exists>r\<in>set ?rs. unexpected r)"
    proof (cases "m = 0")
      case True then show ?thesis by simp
    next
      case False
      then obtain s where s: "s \<in> set ws" "failed s" using stop by auto
      then have "snd (snd s) = None" using z by simp
      then have "unexpected (fst (snd s))" using s(2)
        by (cases s) (auto simp add: failed_def unexpected_def split: option.splits)
      then show ?thesis using s(1) by auto
    qed
    with p show ?thesis by simp
  qed
  have fu: "find unexpected respList = find unexpected ?rs"
    unfolding rl' by (rule find_append_none) (simp add: unexpected_def)
  show "joinChunks errorsList respList =
      (case find (\<lambda>e. e \<noteq> None) errorsList of
         Some e \<Rightarrow> Return (None, e)
       | None \<Rightarrow> (case find unexpected respList of
             Some r \<Rightarrow> Return (r, None)
           | None \<Rightarrow> Return (last respList, None)))"
  proof (cases "find (\<lambda>e. e \<noteq> None) errorsList")
    case (Some e)
    then have "e \<noteq> None" by (auto simp add: find_Some_iff)
    then show ?thesis using Some fe
      by (auto simp add: joinChunks_def CheckError_def)
  next
    case None
    then have fn: "firstError errorsList = None" using fe by simp
    from noerr[OF None] have p: "\<forall>r\<in>set ?rs. r \<noteq> None"
      and st: "m = 0 \<or> (\<exists>r\<in>set ?rs. unexpected r)" by simp_all
    show ?thesis
    proof (cases "\<exists>r\<in>set ?rs. unexpected r")
      case True
      then obtain r where r: "find unexpected ?rs = Some r"
        by (cases "find unexpected ?rs") (auto simp add: find_None_iff)
      then have "unexpected r" by (auto simp add: find_Some_iff)
      then obtain x where x: "r = Some x" by (cases r) (simp_all add: unexpected_def)
      have "scanResponses respList = Unexpected x"
        unfolding rl' using scan_append_unexpected[OF p True, of "replicate m None"] r x by simp
      then show ?thesis using None fn fu r x by (simp add: joinChunks_def)
    next
      case False
      then have m0: "m = 0" using st by simp
      then have rr: "respList = ?rs" using rl' by simp
      have fnone: "find unexpected ?rs = None" using False by (simp add: find_None_iff)
      then have "scanResponses respList = AllPartial"
        using scan_all_present[OF p] rr by simp
      moreover have "respList \<noteq> []" using rr ne m0 by simp
      ultimately show ?thesis using None fn fu fnone by (simp add: joinChunks_def)
    qed
  qed
  show "\<exists>x. last respList = Some x \<and> StatusCode x = StatusPartialContent"
    if a: "find (\<lambda>e. e \<noteq> None) errorsList = None" and b: "find unexpected respList = None"
  proof -
    from noerr[OF a] have p: "\<forall>r\<in>set ?rs. r \<noteq> None"
      and st: "m = 0 \<or> (\<exists>r\<in>set ?rs. unexpected r)" by simp_all
    have nu: "\<forall>r\<in>set ?rs. \<not> unexpected r" using b fu by (simp add: find_None_iff)
    then have m0: "m = 0" using st by auto
    then have rr: "respList = ?rs" using rl' by simp
    have "?rs \<noteq> []" using ne m0 by simp
    then have "last ?rs \<in> set ?rs" by (rule last_in_set)
    then have "last ?rs \<noteq> None" "\<not> unexpected (last ?rs)" using p nu by auto
    then show ?thesis unfolding rr by (cases "last ?rs") (auto simp add: unexpected_def)
  qed
qed

subsection \<open>The partition\<close>

lemma chunkRange_eq:
  assumes "1 \<le> SplitCount flags" "in_int64 (SplitCount flags)"
      and "0 \<le> FileSize flags" "in_int64 (FileSize flags)" "i < nat (SplitCount flags)"
  shows "chunkRange flags i =
     ((FileSize flags div SplitCount flags) * int i,
      (FileSize flags div SplitCount flags) * (int i + 1)
        + (if int i = SplitCount flags - 1 then FileSize flags mod SplitCount flags else 0))"
proof -
  have b: "0 < SplitCount flags" and i: "int i < SplitCount flags" using assms by simp_all
  show ?thesis
    using chunkStart_eq[OF assms(3) b assms(4) i] chunkEnd_eq[OF assms(3) b assms(4) assms(2) i]
    by (simp add: chunkRange_def quo64_nonneg[OF assms(3) b assms(4)] rem64_nonneg[OF assms(3) b assms(4)])
qed

lemma chunk_union:
  fixes a b :: int
  assumes "0 \<le> a" "1 \<le> b"
  shows "(\<Union>i<nat b. {(a div b) * int i ..< (a div b) * (int i + 1) + (if int i = b - 1 then a mod b else 0)})
           = {0 ..< a}"
proof -
  obtain k where k: "nat b = Suc k" using assms(2) by (cases "nat b") simp_all
  then have bk: "b = int k + 1" using assms(2) by linarith
  have q: "0 \<le> a div b" using assms by (simp add: pos_imp_zdiv_nonneg_iff)
  have pre: "(\<Union>i<k. {(a div b) * int i ..< (a div b) * (int i + 1) + (if int i = b - 1 then a mod b else 0)})
      = (\<Union>i<k. {(a div b) * int i ..< (a div b) * (int i + 1)})"
    using bk by (intro SUP_cong) auto
  have "(a div b) * b + a mod b = a" by (rule div_mult_mod_eq)
  then have lastend: "(a div b) * (int k + 1) + a mod b = a" unfolding bk .
  have le: "(a div b) * int k \<le> a"
    using mul_div_bound[of a b "int k"] assms bk by simp
  have "(\<Union>i<nat b. {(a div b) * int i ..< (a div b) * (int i + 1) + (if int i = b - 1 then a mod b else 0)})
      = (\<Union>i<k. {(a div b) * int i ..< (a div b) * (int i + 1)}) \<union> {(a div b) * int k ..< a}"
    unfolding k lessThan_Suc using pre bk lastend by (simp add: Un_commute)
  also have "\<dots> = {0 ..< (a div b) * int k} \<union> {(a div b) * int k ..< a}"
    by (simp add: union_prefix[OF q])
  also have "\<dots> = {0 ..< a}"
    using q le by (intro ivl_disj_un_two) simp_all
  finally show ?thesis .
qed

lemma chunk_ordered:
  fixes a b :: int
  assumes "0 \<le> a" "1 \<le> b" "i < j" "int j < b"
  shows "(a div b) * (int i + 1) + (if int i = b - 1 then a mod b else 0) \<le> (a div b) * int j"
proof -
  have q: "0 \<le> a div b" using assms by (simp add: pos_imp_zdiv_nonneg_iff)
  have "int i + 1 \<le> int j" using assms(3) by simp
  then have "(a div b) * (int i + 1) \<le> (a div b) * int j" using q by (rule mult_left_mono)
  moreover have "int i \<noteq> b - 1" using assms(3,4) by simp
  ultimately show ?thesis by simp
qed

lemma chunkTriple_chunkOf:
  "chunkTriple flags = chunkOf (quo64 (FileSize flags) (SplitCount flags)) (rem64 (FileSize flags) (SplitCount flags)) (SplitCount flags)"
  by (rule ext) (simp add: chunkTriple_def chunkOf_def chunkRange_def)

text \<open>
  Claim C1. For a split count \<open>N \<ge> 1\<close> and a file size \<open>\<ge> 0\<close> (both \<^verbatim>\<open>int64\<close>
  values), the range the dispatcher computes for chunk \<open>i < N\<close> starts at
  \<open>(fileSize div N) * i\<close> and ends at \<open>(fileSize div N) * (i + 1)\<close>, the last one
  extended by \<open>fileSize mod N\<close>; no \<^verbatim>\<open>int64\<close> operation wraps around. The ranges of
  two different chunks are disjoint and the union of all \<open>N\<close> ranges is \<open>[0, fileSize)\<close>.
  The chunks the loop starts a worker for are, in order, those of an initial segment of
  the indices, and all \<open>N\<close> of them when no worker fails.
\<close>

theorem chunk_ranges_partition:
  assumes n1: "1 \<le> SplitCount flags" and nr: "in_int64 (SplitCount flags)"
      and f0: "0 \<le> FileSize flags" and fr: "in_int64 (FileSize flags)"
  shows "(\<forall>i<nat (SplitCount flags). chunkRange flags i =
            ((FileSize flags div SplitCount flags) * int i,
             (FileSize flags div SplitCount flags) * (int i + 1)
               + (if int i = SplitCount flags - 1 then FileSize flags mod SplitCount flags else 0)))
       \<and> (\<forall>i<nat (SplitCount flags). \<forall>j<nat (SplitCount flags). i \<noteq> j \<longrightarrow>
            {fst (chunkRange flags i) ..< snd (chunkRange flags i)}
              \<inter> {fst (chunkRange flags j) ..< snd (chunkRange flags j)} = {})
       \<and> (\<Union>i<nat (SplitCount flags). {fst (chunkRange flags i) ..< snd (chunkRange flags i)})
            = {0 ..< FileSize flags}
       \<and> (\<exists>k\<le>nat (SplitCount flags). startedChunks flags worker seen = map (chunkTriple flags) [0..<k])
       \<and> ((\<forall>i<nat (SplitCount flags). \<not> failed (worker (fst (chunkRange flags i)) (snd (chunkRange flags i)) i))
            \<longrightarrow> startedChunks flags worker seen = map (chunkTriple flags) [0..<nat (SplitCount flags)])"
proof (intro conjI)
  let ?n = "nat (SplitCount flags)"
  let ?b = "FileSize flags div SplitCount flags"
  let ?m = "FileSize flags mod SplitCount flags"
  let ?e = "\<lambda>i. ?b * (int i + 1) + (if int i = SplitCount flags - 1 then ?m else 0)"
  have eq: "chunkRange flags i = (?b * int i, ?e i)" if "i < ?n" for i
    using chunkRange_eq[OF n1 nr f0 fr that] .
  show formula: "\<forall>i<?n. chunkRange flags i = (?b * int i, ?e i)"
    using eq by blast
  have ord: "snd (chunkRange flags i) \<le> fst (chunkRange flags j)" if "i < j" "j < ?n" for i j
  proof -
    have "i < ?n" using that by simp
    moreover have "int j < SplitCount flags" using that(2) by simp
    ultimately show ?thesis
      using eq[of i] eq[OF that(2)] chunk_ordered[OF f0 n1 that(1), of ] by simp
  qed
  show "\<forall>i<?n. \<forall>j<?n. i \<noteq> j \<longrightarrow>
      {fst (chunkRange flags i) ..< snd (chunkRange flags i)}
        \<inter> {fst (chunkRange flags j) ..< snd (chunkRange flags j)} = {}"
  proof (intro allI impI)
    fix i j assume ij: "i < ?n" "j < ?n" "i \<noteq> j"
    then consider "i < j" | "j < i" by linarith
    then show "{fst (chunkRange flags i) ..< snd (chunkRange flags i)}
        \<inter> {fst (chunkRange flags j) ..< snd (chunkRange flags j)} = {}"
    proof cases
      case 1
      from ord[OF 1 ij(2)] show ?thesis by auto
    next
      case 2
      from ord[OF 2 ij(1)] show ?thesis by auto
    qed
  qed
  have "(\<Union>i<?n. {fst (chunkRange flags i) ..< snd (chunkRange flags i)}) = (\<Union>i<?n. {?b * int i ..< ?e i})"
    by (intro SUP_cong) (simp_all add: eq)
  then show "(\<Union>i<?n. {fst (chunkRange flags i) ..< snd (chunkRange flags i)}) = {0 ..< FileSize flags}"
    using chunk_union[OF f0 n1] by simp
  have "[] = map (chunkTriple flags) [0..<0]" by simp
  moreover have "int 0 \<le> SplitCount flags" using n1 by simp
  ultimately obtain k where "0 \<le> k" "int k \<le> SplitCount flags"
      "startedChunks flags worker seen = map (chunkTriple flags) [0..<k]"
    unfolding startedChunks_def chunkTriple_chunkOf
    using dispatchLoop_prefix[of "[]" _ _ "SplitCount flags" 0 worker seen] by blast
  then show "\<exists>k\<le>?n. startedChunks flags worker seen = map (chunkTriple flags) [0..<k]"
    by (intro exI[of _ k]) simp
  show "(\<forall>i<?n. \<not> failed (worker (fst (chunkRange flags i)) (snd (chunkRange flags i)) i))
      \<longrightarrow> startedChunks flags worker seen = map (chunkTriple flags) [0..<?n]"
  proof
    assume a: "\<forall>i<?n. \<not> failed (worker (fst (chunkRange flags i)) (snd (chunkRange flags i)) i)"
    have "\<forall>c\<in>set (map (chunkTriple flags) [0..<?n]). \<not> failed (case c of (s, e, j) \<Rightarrow> worker s e j)"
      using a by (simp add: chunkTriple_def)
    then show "startedChunks flags worker seen = map (chunkTriple flags) [0..<?n]"
      unfolding startedChunks_def chunkTriple_chunkOf
      using dispatchLoop_all[of _ _ "SplitCount flags" worker "[]" 0 seen] n1 by simp
  qed
qed

text \<open>The partition of 10 bytes into 3 chunks: \<open>[0,3)\<close>, \<open>[3,6)\<close>, \<open>[6,10)\<close>.\<close>

theorem chunk_ranges_partition_witness:
  "chunkRange flags10by3 0 = (0, 3) \<and> chunkRange flags10by3 1 = (3, 6) \<and> chunkRange flags10by3 2 = (6, 10)
   \<and> (\<Union>i<3. {fst (chunkRange flags10by3 i) ..< snd (chunkRange flags10by3 i)}) = {0 ..< 10}
   \<and> {fst (chunkRange flags10by3 0) ..< snd (chunkRange flags10by3 0)}
        \<inter> {fst (chunkRange flags10by3 2) ..< snd (chunkRange flags10by3 2)} = {}
   \<and> startedChunks flags10by3 allPartial (\<lambda>i. []) = map (chunkTriple flags10by3) [0..<3]"
proof -
  have h: "1 \<le> SplitCount flags10by3" "in_int64 (SplitCount flags10by3)"
          "0 \<le> FileSize flags10by3" "in_int64 (FileSize flags10by3)"
    by (simp_all add: flags10by3_def in_int64_def)
  have n: "nat (SplitCount flags10by3) = 3" "SplitCount flags10by3 = 3" "FileSize flags10by3 = 10"
    by (simp_all add: flags10by3_def)
  have nf: "\<forall>i<3. \<not> failed (allPartial (fst (chunkRange flags10by3 i)) (snd (chunkRange flags10by3 i)) i)"
    by (simp add: failed_def allPartial_def partial206_def StatusPartialContent_def)
  have n3: "nat (3::int) = 3" by simp
  note t = chunk_ranges_partition[OF h, of allPartial "\<lambda>i. []", unfolded n n3]
  from t have f: "\<forall>i<3. chunkRange flags10by3 i =
      (10 div 3 * int i, 10 div 3 * (int i + 1) + (if int i = 3 - 1 then 10 mod 3 else 0))"
    by (rule conjunct1)
  have "chunkRange flags10by3 0 = (0, 3)" "chunkRange flags10by3 1 = (3, 6)" "chunkRange flags10by3 2 = (6, 10)"
    using f[rule_format, of 0] f[rule_format, of 1] f[rule_format, of 2] by simp_all
  moreover from t have "(\<Union>i<3. {fst (chunkRange flags10by3 i) ..< snd (chunkRange flags10by3 i)}) = {0 ..< 10}"
    by blast
  moreover from t have "{fst (chunkRange flags10by3 0) ..< snd (chunkRange flags10by3 0)}
        \<inter> {fst (chunkRange flags10by3 2) ..< snd (chunkRange flags10by3 2)} = {}"
  proof -
    from t have d: "\<forall>i<3. \<forall>j<3. i \<noteq> j \<longrightarrow>
          {fst (chunkRange flags10by3 i) ..< snd (chunkRange flags10by3 i)}
            \<inter> {fst (chunkRange flags10by3 j) ..< snd (chunkRange flags10by3 j)} = {}"
      by blast
    show ?thesis using d[rule_format, of 0 2] by simp
  qed
  moreover from t nf have "startedChunks flags10by3 allPartial (\<lambda>i. []) = map (chunkTriple flags10by3) [0..<3]"
    by blast
  ultimately show ?thesis by blast
qed

text \<open>
  Claim C2. Let every worker return a response or an error (what \<^verbatim>\<open>downloadFileRange\<close>
  does), and let the split count be at least 1. After all started workers have stored
  their results, the join returns: the first error that is not nil, with a nil response,
  if some slot holds one; otherwise the first response, in index order, whose status is
  not 206, with a nil error, if some slot holds one; otherwise the response of the last
  slot, which is present and has status 206, with a nil error. This holds for every
  schedule, whether or not the dispatcher stopped starting workers early.
\<close>

theorem join_after_wait:
  assumes n1: "1 \<le> SplitCount flags"
      and contract: "\<forall>s e i. fst (snd (worker s e i)) \<noteq> None \<or> snd (snd (worker s e i)) \<noteq> None"
  shows "downloadChunksConcurrently flags worker seen =
      (case find (\<lambda>e. e \<noteq> None) (errorsAfterWait flags worker seen) of
         Some e \<Rightarrow> Return (None, e)
       | None \<Rightarrow> (case find unexpected (responsesAfterWait flags worker seen) of
             Some r \<Rightarrow> Return (r, None)
           | None \<Rightarrow> Return (last (responsesAfterWait flags worker seen), None)))
     \<and> (find (\<lambda>e. e \<noteq> None) (errorsAfterWait flags worker seen) = None
          \<and> find unexpected (responsesAfterWait flags worker seen) = None
        \<longrightarrow> (\<exists>x. last (responsesAfterWait flags worker seen) = Some x \<and> StatusCode x = 206))"
proof -
  let ?cs = "quo64 (FileSize flags) (SplitCount flags)"
  let ?md = "rem64 (FileSize flags) (SplitCount flags)"
  let ?n = "SplitCount flags"
  obtain k where k: "k \<le> nat ?n"
      and sl: "slotsAfterWait flags worker seen =
         map (workerAt ?cs ?md ?n worker) [0..<k] @ replicate (nat ?n - k) emptySlot"
      and st: "k = nat ?n \<or> (\<exists>j<k. failed (workerAt ?cs ?md ?n worker j))"
    using slots_shape[OF n1, of worker seen] by blast
  let ?ws = "map (workerAt ?cs ?md ?n worker) [0..<k]"
  have present: "\<forall>s\<in>set ?ws. fst (snd s) \<noteq> None \<or> snd (snd s) \<noteq> None"
    using contract by (auto simp add: workerAt_def)
  have stop: "nat ?n - k = 0 \<or> (\<exists>s\<in>set ?ws. failed s)"
    using st by auto
  have ne: "0 < length ?ws + (nat ?n - k)" using n1 k by simp
  note js = join_shape[OF present stop ne sl, of "errorsAfterWait flags worker seen" "responsesAfterWait flags worker seen"]
  have e: "errorsAfterWait flags worker seen = map (\<lambda>s. snd (snd s)) (slotsAfterWait flags worker seen)"
    by (simp add: errorsAfterWait_def)
  have r: "responsesAfterWait flags worker seen = map (\<lambda>s. fst (snd s)) (slotsAfterWait flags worker seen)"
    by (simp add: responsesAfterWait_def)
  have "downloadChunksConcurrently flags worker seen =
      joinChunks (errorsAfterWait flags worker seen) (responsesAfterWait flags worker seen)"
    using n1 by (simp add: downloadChunksConcurrently_def)
  then show ?thesis using js(1)[OF e r] js(2)[OF e r] by (simp add: StatusPartialContent_def)
qed

lemma slots_example:
  "slotsAfterWait flags10by3 secondNotFound (\<lambda>i. []) =
     [(''chunk'', Some partial206, None), ('''', Some notFound404, None), (''chunk'', Some partial206, None)]"
  by (simp add: slotsAfterWait_def startedChunks_def dispatchLoop.simps flags10by3_def fastFail_def
      secondNotFound_def emptySlot_def numeral_3_eq_3)

text \<open>
  Three chunks, the second answered with 404: the join returns that response. All three
  answered with 206: the join returns the last response.
\<close>

theorem join_after_wait_witness:
  "downloadChunksConcurrently flags10by3 secondNotFound (\<lambda>i. []) = Return (Some notFound404, None)
   \<and> downloadChunksConcurrently flags10by3 allPartial (\<lambda>i. []) = Return (Some partial206, None)"
proof -
  have h: "1 \<le> SplitCount flags10by3" by (simp add: flags10by3_def)
  have c: "\<forall>s e i. fst (snd (secondNotFound s e i)) \<noteq> None \<or> snd (snd (secondNotFound s e i)) \<noteq> None"
    by (simp add: secondNotFound_def)
  have c2: "\<forall>s e i. fst (snd (allPartial s e i)) \<noteq> None \<or> snd (snd (allPartial s e i)) \<noteq> None"
    by (simp add: allPartial_def)
  have s2: "slotsAfterWait flags10by3 allPartial (\<lambda>i. []) =
     [(''chunk'', Some partial206, None), (''chunk'', Some partial206, None), (''chunk'', Some partial206, None)]"
    by (simp add: slotsAfterWait_def startedChunks_def dispatchLoop.simps flags10by3_def fastFail_def
      allPartial_def emptySlot_def numeral_3_eq_3)
  have "downloadChunksConcurrently flags10by3 secondNotFound (\<lambda>i. []) = Return (Some notFound404, None)"
    using join_after_wait[OF h c, of "\<lambda>i. []"]
    by (simp add: errorsAfterWait_def responsesAfterWait_def slots_example unexpected_def
        partial206_def notFound404_def StatusPartialContent_def)
  moreover have "downloadChunksConcurrently flags10by3 allPartial (\<lambda>i. []) = Return (Some partial206, None)"
    using join_after_wait[OF h c2, of "\<lambda>i. []"]
    by (simp add: errorsAfterWait_def responsesAfterWait_def s2 unexpected_def
        partial206_def StatusPartialContent_def)
  ultimately show ?thesis by simp
qed

section \<open>The download of one chunk returns a response or an error\<close>

text \<open>
  \<^verbatim>\<open>Execute\<close> returns a nil error only after the handler has asked for no retry with a nil
  error. The handler of \<^verbatim>\<open>Send\<close> does so only with a response, hence \<^verbatim>\<open>Send\<close> never
  returns a nil response together with a nil error; the dereference of the response in
  \<^verbatim>\<open>doDownloadFileRange\<close> therefore does not panic. A request other than a POST never
  calls \<^verbatim>\<open>SendPost\<close>, so depth one is enough for it to return.
\<close>

lemma retryLoop_success_state:
  assumes "\<And>st r e st'. handler st = Some ((r, e), st') \<Longrightarrow> \<not> r \<Longrightarrow> e = None \<Longrightarrow> Q st'"
  shows "retryLoop k handler cancelled errorMessage lastErr st = Some (None, st') \<Longrightarrow> Q st'"
proof (induction k arbitrary: st lastErr)
  case 0
  then show ?case by (simp add: exhausted_def)
next
  case (Suc k)
  from Suc.prems obtain r e st1 where h: "handler st = Some ((r, e), st1)"
    by (cases "handler st") auto
  show ?case
  proof (cases r)
    case False
    then have "e = None" "st1 = st'" using Suc.prems h by simp_all
    then show ?thesis using assms[OF h] False by simp
  next
    case True
    then have "\<not> (k \<noteq> 0 \<and> cancelled st1)" using Suc.prems h by auto
    then have "retryLoop k handler cancelled errorMessage e st1 = Some (None, st')"
      using Suc.prems h True by auto
    then show ?thesis by (rule Suc.IH)
  qed
qed

lemma Execute_success_state:
  assumes "\<And>st r e st'. handler st = Some ((r, e), st') \<Longrightarrow> \<not> r \<Longrightarrow> e = None \<Longrightarrow> Q st'"
      and "Execute maxRetries errorMessage cancelled handler st = Some (None, st')"
  shows "Q st'"
proof -
  have "\<exists>k. retryLoop k handler cancelled errorMessage None st = Some (None, st')"
    using assms(2) unfolding Execute_def by blast
  then obtain k where "retryLoop k handler cancelled errorMessage None st = Some (None, st')" ..
  then show ?thesis
    using assms(1) by (rule retryLoop_success_state[rotated])
qed

lemma sendHandler_success:
  assumes "sendHandler E SP jc method url content followRedirect closeBody d logMsgPrefix st = Some ((r, e), st')"
      and "\<not> r" "e = None"
  shows "fst (fst st') \<noteq> None"
  using assms
  by (auto simp add: sendHandler_def CheckErrorf_def CheckError_def
      split: prod.splits option.splits if_splits)

lemma Send_response_or_error:
  assumes "Send depth E jc method url content followRedirect closeBody d logMsgPrefix w =
             Some ((resp, respBody, redirectUrl, err), w')"
  shows "resp \<noteq> None \<or> err \<noteq> None"
proof (cases depth)
  case 0
  then show ?thesis using assms by simp
next
  case (Suc n)
  show ?thesis
  proof (cases err)
    case (Some e)
    then show ?thesis by simp
  next
    case None
    let ?h = "sendHandler E (\<lambda>u c d. Send n E jc ''POST'' u c True True d '''') jc method url content
        followRedirect closeBody d logMsgPrefix"
    have "Execute (retries jc) (''Failure occurred while sending '' @ method @ '' request to '' @ url)
        (\<lambda>st. ctxCancelled jc (snd st)) ?h ((None, None, ''''), w) = Some (None, ((resp, respBody, redirectUrl), w'))"
      using assms Suc None by (auto split: option.splits prod.splits)
    then have "fst (fst ((resp, respBody, redirectUrl), w')) \<noteq> None"
      by (rule Execute_success_state[where Q = "\<lambda>st. fst (fst st) \<noteq> None", rotated])
        (rule sendHandler_success)
    then show ?thesis by simp
  qed
qed

lemma doDownloadFileRange_no_panic:
  "doDownloadFileRange depth E jc flags start end i d io w = Some (res, w1) \<Longrightarrow>
   \<exists>fileName resp err. res = Return (fileName, resp, err)"
  unfolding doDownloadFileRange_def
  by (auto split: sum.splits option.splits prod.splits if_splits dest: Send_response_or_error)

lemma rangeHandler_success:
  assumes "rangeHandler depth E jc flags start end i logMsgPrefix d io st = Some ((r, e), st')"
      and "\<not> r" "e = None"
  shows "fst (snd (fst st')) \<noteq> None \<and> \<not> snd (snd (fst st'))"
proof -
  obtain res w1 where dd: "doDownloadFileRange depth E jc flags start end i d io (snd st) = Some (res, w1)"
    using assms(1) by (cases "doDownloadFileRange depth E jc flags start end i d io (snd st)")
      (auto simp add: rangeHandler_def)
  obtain fileName resp err where res: "res = Return (fileName, resp, err)"
    using doDownloadFileRange_no_panic[OF dd] by blast
  show ?thesis
    using assms dd res
    by (auto simp add: rangeHandler_def CheckErrorf_def CheckError_def split: option.splits if_splits)
qed

lemma rangeHandler_never_panics:
  assumes "rangeHandler depth E jc flags start end i logMsgPrefix d io st = Some ((r, e), st')"
  shows "\<not> snd (snd (fst st'))"
proof -
  obtain res w1 where dd: "doDownloadFileRange depth E jc flags start end i d io (snd st) = Some (res, w1)"
    using assms(1) by (cases "doDownloadFileRange depth E jc flags start end i d io (snd st)")
      (auto simp add: rangeHandler_def)
  obtain fileName resp err where res: "res = Return (fileName, resp, err)"
    using doDownloadFileRange_no_panic[OF dd] by blast
  show ?thesis
    using assms dd res
    by (auto simp add: rangeHandler_def split: option.splits if_splits)
qed


lemma retryLoop_returns:
  assumes "\<And>st. handler st \<noteq> None"
  shows "\<exists>res. retryLoop k handler cancelled errorMessage lastErr st = Some res"
proof (induction k arbitrary: st lastErr)
  case 0
  then show ?case by simp
next
  case (Suc k)
  obtain r e st1 where h: "handler st = Some ((r, e), st1)"
    using assms[of st] by (cases "handler st") auto
  show ?case using h Suc.IH[of e st1] by auto
qed

lemma retryLoop_invariant:
  assumes "\<And>st r e st'. handler st = Some ((r, e), st') \<Longrightarrow> P st'"
  shows "P st \<Longrightarrow> retryLoop k handler cancelled errorMessage lastErr st = Some (err, st') \<Longrightarrow> P st'"
proof (induction k arbitrary: st lastErr)
  case 0
  then show ?case by simp
next
  case (Suc k)
  from Suc.prems(2) obtain r e st1 where h: "handler st = Some ((r, e), st1)"
    by (cases "handler st") auto
  have p1: "P st1" using assms[OF h] .
  show ?case
  proof (cases "\<not> r \<or> (k \<noteq> 0 \<and> cancelled st1)")
    case True
    then have "st1 = st'" using Suc.prems(2) h by (auto split: if_splits)
    then show ?thesis using p1 by simp
  next
    case False
    then have "retryLoop k handler cancelled errorMessage e st1 = Some (err, st')"
      using Suc.prems(2) h by auto
    then show ?thesis using Suc.IH[OF p1] by simp
  qed
qed

lemma createReq_Method:
  "createReq E method url content = (Some req, e) \<Longrightarrow> Method req = method"
  by (auto simp add: createReq_def newRequest_def newRequest0_def split: option.splits)

lemma doRequest_returns:
  assumes "Method req \<noteq> ''POST''"
  shows "doRequest E SP jc req content followRedirect closeBody d w \<noteq> None"
  using assms
  by (simp add: doRequest_def Let_def compose_fields del: not_None_eq split: prod.splits)

lemma sendHandler_returns:
  assumes "method \<noteq> ''POST''"
  shows "sendHandler E SP jc method url content followRedirect closeBody d logMsgPrefix st \<noteq> None"
proof (cases "createReq E method url content")
  case (Pair ro e)
  show ?thesis
  proof (cases ro)
    case None
    then show ?thesis using Pair by (simp add: sendHandler_def split: prod.splits)
  next
    case (Some req)
    then have "Method req \<noteq> ''POST''" using createReq_Method Pair assms by blast
    then obtain res where "doRequest E SP jc req content followRedirect closeBody d (snd st) = Some res"
      using doRequest_returns[of req E SP jc content followRedirect closeBody d "snd st"] by auto
    then show ?thesis using Pair Some
      by (auto simp add: sendHandler_def split: prod.splits option.splits)
  qed
qed

lemma Send_returns:
  assumes "method \<noteq> ''POST''"
  shows "\<exists>res. Send (Suc n) E jc method url content followRedirect closeBody d logMsgPrefix w = Some res"
proof -
  let ?h = "sendHandler E (\<lambda>u c d. Send n E jc ''POST'' u c True True d '''') jc method url content
        followRedirect closeBody d logMsgPrefix"
  have "\<And>st. ?h st \<noteq> None" using assms by (rule sendHandler_returns)
  then obtain res where "Execute (retries jc) (''Failure occurred while sending '' @ method @ '' request to '' @ url)
        (\<lambda>st. ctxCancelled jc (snd st)) ?h ((None, None, ''''), w) = Some res"
    unfolding Execute_def using retryLoop_returns[of ?h] by blast
  then show ?thesis by (auto split: prod.splits)
qed

lemma doDownloadFileRange_returns:
  "\<exists>fileName resp err w1.
     doDownloadFileRange (Suc n) E jc flags start end i d io w = Some (Return (fileName, resp, err), w1)"
proof (cases "CreateTemp io")
  case (Inl e)
  then show ?thesis by (simp add: doDownloadFileRange_def)
next
  case (Inr name)
  let ?d = "d\<lparr>Headers := setHeaderEntry (Headers d) ''Range'' (rangeHeader start end)\<rparr>"
  obtain resp rb ru err w1 where
    "Send (Suc n) E jc ''GET'' (DownloadPath flags) None True False ?d '''' w = Some ((resp, rb, ru, err), w1)"
    using Send_returns[of "''GET''" n E jc "DownloadPath flags" None True False ?d "''''" w] by auto
  then have "doDownloadFileRange (Suc n) E jc flags start end i d io w \<noteq> None"
    using Inr unfolding doDownloadFileRange_def
    by (simp del: Send.simps not_None_eq split: option.splits)
  then obtain res' w1 where dd: "doDownloadFileRange (Suc n) E jc flags start end i d io w = Some (res', w1)"
    by auto
  show ?thesis using dd doDownloadFileRange_no_panic[OF dd] by auto
qed

lemma rangeHandler_returns:
  "rangeHandler (Suc n) E jc flags start end i logMsgPrefix d io st \<noteq> None"
proof -
  obtain fileName resp err w1 where
    "doDownloadFileRange (Suc n) E jc flags start end i d io (snd st) = Some (Return (fileName, resp, err), w1)"
    using doDownloadFileRange_returns[of n E jc flags start "end" i d io "snd st"] by auto
  then show ?thesis by (simp add: rangeHandler_def del: not_None_eq split: option.splits)
qed

text \<open>
  \<^verbatim>\<open>downloadFileRange\<close> returns, without a panic, and what it returns holds a response or
  an error: the join of the chunks never reads the status of a nil response.
\<close>

lemma downloadFileRange_returns:
  "\<exists>fileName resp err w'.
     downloadFileRange (Suc n) E jc flags start end i logMsgPrefix d io w = Some (Return (fileName, resp, err), w')
     \<and> (resp \<noteq> None \<or> err \<noteq> None)"
proof -
  let ?h = "rangeHandler (Suc n) E jc flags start end i logMsgPrefix d io"
  let ?m = "''Failure occurred while downloading part '' @ FormatInt (int i) @ '' of '' @ DownloadPath flags"
  have "\<And>st. ?h st \<noteq> None" by (rule rangeHandler_returns)
  then obtain err st' where ex: "Execute (retries jc) ?m (\<lambda>st. False) ?h (('''', None, False), w) = Some (err, st')"
    unfolding Execute_def using retryLoop_returns[of ?h] by fast
  obtain fileName resp panicked w' where st': "st' = ((fileName, resp, panicked), w')"
    by (cases st') auto
  have "\<not> snd (snd (fst st'))"
    using ex unfolding Execute_def
    by (rule retryLoop_invariant[where P = "\<lambda>st. \<not> snd (snd (fst st))", rotated 2])
      (auto dest: rangeHandler_never_panics)
  then have np: "\<not> panicked" using st' by simp
  have "resp \<noteq> None \<or> err \<noteq> None"
  proof (cases err)
    case None
    have "fst (snd (fst st')) \<noteq> None \<and> \<not> snd (snd (fst st'))"
    proof (rule Execute_success_state[where Q = "\<lambda>st. fst (snd (fst st)) \<noteq> None \<and> \<not> snd (snd (fst st))"
          and handler = ?h])
      show "Execute (retries jc) ?m (\<lambda>st. False) ?h (('''', None, False), w) = Some (None, st')"
        using ex None by simp
    next
      fix st r e st''
      assume "?h st = Some ((r, e), st'')" "\<not> r" "e = None"
      then show "fst (snd (fst st'')) \<noteq> None \<and> \<not> snd (snd (fst st''))"
        by (rule rangeHandler_success)
    qed
    then show ?thesis using st' by simp
  qed simp
  then show ?thesis using ex st' np by (simp add: downloadFileRange_def)
qed

end
